theory Spec2Isabelle
  imports Main
begin

section \<open>The server's main program (ServerMain.cpp)\<close>

text \<open>
  The gateway's \<open>main\<close> runs a fixed sequence of start-up blocks, each of which either
  returns from \<open>main\<close> with an exit code or falls through to the next one, and ends in
  \<open>waitForSignals\<close>, a loop around \<open>sigwait\<close>. Everything \<open>main\<close> calls outside
  ServerMain.cpp (option parsing, daemonizing, the crypto, cookie, proxy, addin and PAM
  modules, the http server, the operating system) is a collaborator: the model records the
  call in a trace and takes the call's answer from an environment record, so that every
  branch of the source on such an answer is a branch of the model. Where \<open>main\<close>
  tests the \<open>Error\<close> a collaborator returns, that \<open>Error\<close> is the collaborator's failure
  and the collaborator is taken to return. The crypto initialisation returns nothing that
  \<open>main\<close> reads: its failure reaches \<open>main\<close> as a C++ exception, which the \<open>catch\<close>
  around the body of \<open>main\<close> (lines 447--450) turns into \<open>EXIT_FAILURE\<close>.
\<close>

subsection \<open>Errors, exit codes, signals\<close>

datatype error = SystemError int | ModuleError string

definition EXIT_SUCCESS :: int where
  "EXIT_SUCCESS = 0"

definition EXIT_FAILURE :: int where
  "EXIT_FAILURE = 1"

text \<open>Signal numbers as \<open>signal.h\<close> gives them on Linux; only their being distinct matters.\<close>

definition SIGINT :: int where
  "SIGINT = 2"

definition SIGQUIT :: int where
  "SIGQUIT = 3"

definition SIGTERM :: int where
  "SIGTERM = 15"

definition SIGCHLD :: int where
  "SIGCHLD = 17"

datatype sighandler = SIG_DFL | SIG_IGN | HandlerFunction string

subsection \<open>The trace of calls\<close>

datatype proxy = ProxyRpcRequest | ProxyEventsRequest | ProxyContentRequest

text \<open>The handler expressions that \<open>httpServerAddHandlers\<close> registers, as written there:
  \<open>secureAsyncHttpHandler\<close> is called with one argument (\<open>None\<close>) or with a second one,
  the flag written at the call.\<close>

datatype handlerExpr =
    SecureAsyncJsonRpcHandler proxy
  | SecureAsyncHttpHandler proxy "bool option"
  | SecureAsyncUploadHandler proxy
  | SecureAsyncHttpHandlerOfFileHandler bool
  | SecureJsonRpcHandlerOfLogRequest
  | SecureHttpHandlerOfTemplate string string
  | HandleBrowserUnsupportedRequest
  | NotFoundHandler
  | BlockingFileHandler

datatype event =
    InitializeSystemLog
  | IgnoreSigPipe
  | LogError error
  | OptionsRead
  | Daemonize
  | IgnoreTerminalSignals
  | SetUMask
  | REnvironmentInitialize
  | ReportError string
  | SetFilesLimit nat
  | MakeCurrentPath string
  | CryptoInitialize
  | SecureCookieInitialize
  | SessionProxyInitialize
  | HttpServerReset
  | SetAbortOnResourceError bool
  | HttpServerInit string string
  | OfflineAddHandlers
  | AddHandler string handlerExpr
  | AddBlockingHandler string handlerExpr
  | SetBlockingDefault handlerExpr
  | AddinsInitialize
  | PamAuthInitialize
  | EnforceRestricted
  | TemporarilyDropPriv string
  | RunVerifyInstallationSession
  | HttpServerRun nat
  | SigactionCall int sighandler
  | PthreadSigmaskBlock "int list"
  | NotifySIGCHLD
  | ClearSignalMask
  | Kill int
  | LogWarningUnexpectedSignal int
  | LogUnexpectedException

subsection \<open>The environment: options and the collaborators' answers\<close>

text \<open>
  One iteration of the loop of \<open>waitForSignals\<close> reads what \<open>sigwait\<close> returned and
  stored; on a termination signal it also reads what \<open>clearSignalMask\<close> and
  \<open>sigaction\<close> returned.
\<close>

record sigwaitReturn =
  sigwait_result :: int
  sigwait_sig :: int
  clearSignalMask_result :: "error option"
  sigaction_result :: int

text \<open>
  An \<open>Error\<close> that tests false (\<open>Success()\<close>) is \<open>None\<close>. The call
  \<open>core::system::crypto::initialize()\<close> is an expression statement in \<open>main\<close>: it either
  returns or throws.
\<close>

record env =
  ignoreSigPipe_result :: "error option"
  status_exit :: bool
  status_exitCode :: int
  serverDaemonize :: bool
  daemonize_result :: "error option"
  ignoreTerminalSignals_result :: "error option"
  rEnvironment_detected :: bool
  rEnvironment_errMsg :: string
  setResourceLimit_result :: "error option"
  serverWorkingDir :: string
  makeCurrentPath_result :: "error option"
  cryptoInitialize_throws :: bool
  secureCookieInitialize_result :: "error option"
  sessionProxyInitialize_result :: "error option"
  wwwAddress :: string
  wwwPort :: string
  httpServerInit_result :: "error option"
  serverOffline :: bool
  wwwLocalPath :: string
  kBrowserUnsupported :: string
  addinsInitialize_result :: "error option"
  authHandlerIsRegistered :: bool
  pamAuthInitialize_result :: "error option"
  serverAppArmorEnabled :: bool
  enforceRestricted_result :: "error option"
  serverUser :: string
  userIdOf :: "string \<Rightarrow> nat"
  temporarilyDropPriv_result :: "error option"
  verifyInstallation :: bool
  runVerifyInstallationSession_result :: "error option"
  wwwThreadPoolSize :: nat
  httpServerRun_result :: "error option"
  sigactionSIGCHLD_result :: int
  sigactionSIGCHLD_errno :: int
  pthreadSigmask_result :: int
  sigwaitReturns :: "sigwaitReturn list"
  startRealUid :: nat
  startEffectiveUid :: nat
  startSavedUid :: nat

subsection \<open>The process\<close>

record credentials =
  realUid :: nat
  effectiveUid :: nat
  savedUid :: nat

record process =
  trace :: "event list"
  creds :: credentials
  sigmask :: "int set"
  sigdisp :: "int \<Rightarrow> sighandler"

text \<open>How a run ends: \<open>main\<close> returns a code, the process is ended by a signal's default
  action, or (the signals observed so far being used up) it is blocked in \<open>sigwait\<close>.\<close>

datatype ending = Exited int | KilledBySignal int | BlockedInSigwait

definition emit :: "event list \<Rightarrow> process \<Rightarrow> process" where
  "emit es s = s\<lparr>trace := trace s @ es\<rparr>"

definition logIfError :: "error option \<Rightarrow> process \<Rightarrow> process" where
  "logIfError r s = (case r of Some e \<Rightarrow> emit [LogError e] s | None \<Rightarrow> s)"

text \<open>
  Modelled from the spec: \<open>core::system::exitFailure\<close> is not part of ServerMain.cpp. The
  spec has a fatal bootstrap error "always logged" and ending the process "with failure
  status" (\<open>EXIT_FAILURE\<close>).
\<close>

definition exitFailure :: "error \<Rightarrow> process \<Rightarrow> ending option \<times> process" where
  "exitFailure e s = (Some (Exited EXIT_FAILURE), emit [LogError e] s)"

text \<open>
  Modelled from the spec: \<open>core::system::realUserIsRoot\<close> is not part of ServerMain.cpp.
  The spec raises the limit "if running with elevated privilege"; by its name the call asks
  whether the real user id is root's.
\<close>

definition realUserIsRoot :: "process \<Rightarrow> bool" where
  "realUserIsRoot s = (realUid (creds s) = 0)"

subsection \<open>The blocks of \<open>main\<close>, in the order of the source\<close>

text \<open>
  A block takes the environment and the process and gives the process after it, with
  \<open>Some\<close> ending where the block leaves \<open>main\<close> and \<open>None\<close> where control falls through
  to the next block.
\<close>

type_synonym block = "env \<Rightarrow> process \<Rightarrow> ending option \<times> process"

definition initializeLog :: block where
  \<comment> \<open>lines 308--314: a failure to ignore SIGPIPE is logged, nothing more\<close>
  "initializeLog env s =
     (None, logIfError (ignoreSigPipe_result env) (emit [InitializeSystemLog, IgnoreSigPipe] s))"

definition readOptions :: block where
  \<comment> \<open>lines 316--320\<close>
  "readOptions env s =
     (let s1 = emit [OptionsRead] s
      in if status_exit env then (Some (Exited (status_exitCode env)), s1) else (None, s1))"

definition daemonizeIfRequested :: block where
  \<comment> \<open>lines 322--335\<close>
  "daemonizeIfRequested env s =
     (if serverDaemonize env then
        (let s1 = emit [Daemonize] s
         in case daemonize_result env of
              Some e \<Rightarrow> exitFailure e s1
            | None \<Rightarrow>
                (let s2 = emit [IgnoreTerminalSignals] s1
                 in case ignoreTerminalSignals_result env of
                      Some e \<Rightarrow> exitFailure e s2
                    | None \<Rightarrow> (None, emit [SetUMask] s2)))
      else (None, s))"

definition detectREnvironment :: block where
  \<comment> \<open>lines 337--345\<close>
  "detectREnvironment env s =
     (let s1 = emit [REnvironmentInitialize] s
      in if \<not> rEnvironment_detected env
         then (Some (Exited EXIT_FAILURE), emit [ReportError (rEnvironment_errMsg env)] s1)
         else (None, s1))"

definition raiseFilesLimit :: block where
  \<comment> \<open>lines 347--354\<close>
  "raiseFilesLimit env s =
     (if realUserIsRoot s then
        (let s1 = emit [SetFilesLimit 4096] s
         in case setResourceLimit_result env of
              Some e \<Rightarrow> exitFailure e s1
            | None \<Rightarrow> (None, s1))
      else (None, s))"

definition setWorkingDir :: block where
  \<comment> \<open>lines 356--359\<close>
  "setWorkingDir env s =
     (let s1 = emit [MakeCurrentPath (serverWorkingDir env)] s
      in case makeCurrentPath_result env of
           Some e \<Rightarrow> exitFailure e s1
         | None \<Rightarrow> (None, s1))"

text \<open>
  Modelled from the spec: the macro \<open>CATCH_UNEXPECTED_EXCEPTION\<close> that closes the
  \<open>try\<close> of \<open>main\<close> is not part of ServerMain.cpp. In the spec an unhandled exception
  is "caught at the top level, logged, process exits with failure status"; after the macro,
  lines 449--450 return \<open>EXIT_FAILURE\<close>.
\<close>

definition catchUnexpectedException :: "process \<Rightarrow> ending option \<times> process" where
  "catchUnexpectedException s = (Some (Exited EXIT_FAILURE), emit [LogUnexpectedException] s)"

definition initializeCrypto :: block where
  \<comment> \<open>lines 361--362; nothing is returned to \<open>main\<close>, an exception goes to the \<open>catch\<close>\<close>
  "initializeCrypto env s =
     (let s1 = emit [CryptoInitialize] s
      in if cryptoInitialize_throws env then catchUnexpectedException s1 else (None, s1))"

definition initializeSecureCookie :: block where
  \<comment> \<open>lines 364--367\<close>
  "initializeSecureCookie env s =
     (let s1 = emit [SecureCookieInitialize] s
      in case secureCookieInitialize_result env of
           Some e \<Rightarrow> exitFailure e s1
         | None \<Rightarrow> (None, s1))"

definition initializeSessionProxy :: block where
  \<comment> \<open>lines 369--372\<close>
  "initializeSessionProxy env s =
     (let s1 = emit [SessionProxyInitialize] s
      in case sessionProxyInitialize_result env of
           Some e \<Rightarrow> exitFailure e s1
         | None \<Rightarrow> (None, s1))"

definition httpServerInit :: "env \<Rightarrow> process \<Rightarrow> error option \<times> process" where
  \<comment> \<open>lines 111--122\<close>
  "httpServerInit env s =
     (httpServerInit_result env,
      emit [HttpServerReset, SetAbortOnResourceError True,
            HttpServerInit (wwwAddress env) (wwwPort env)] s)"

definition initializeHttpServer :: block where
  \<comment> \<open>lines 374--377\<close>
  "initializeHttpServer env s =
     (case httpServerInit env s of
        (Some e, s1) \<Rightarrow> exitFailure e s1
      | (None, s1) \<Rightarrow> (None, s1))"

definition httpServerAddHandlers :: "env \<Rightarrow> event list" where
  \<comment> \<open>lines 124--174\<close>
  "httpServerAddHandlers env =
     [AddHandler ''/rpc'' (SecureAsyncJsonRpcHandler ProxyRpcRequest),
      AddHandler ''/events'' (SecureAsyncJsonRpcHandler ProxyEventsRequest),
      AddHandler ''/graphics'' (SecureAsyncHttpHandler ProxyContentRequest None),
      AddHandler ''/upload'' (SecureAsyncUploadHandler ProxyContentRequest),
      AddHandler ''/export'' (SecureAsyncHttpHandler ProxyContentRequest None),
      AddHandler ''/source'' (SecureAsyncHttpHandler ProxyContentRequest None),
      AddHandler ''/content'' (SecureAsyncHttpHandler ProxyContentRequest None),
      AddHandler ''/diff'' (SecureAsyncHttpHandler ProxyContentRequest None),
      AddHandler ''/file_show'' (SecureAsyncHttpHandler ProxyContentRequest None),
      AddHandler ''/view_pdf'' (SecureAsyncHttpHandler ProxyContentRequest None),
      AddHandler ''/agreement'' (SecureAsyncHttpHandler ProxyContentRequest None),
      AddHandler ''/presentation'' (SecureAsyncHttpHandler ProxyContentRequest None),
      AddHandler ''/help'' (SecureAsyncHttpHandler ProxyContentRequest (Some True)),
      AddHandler ''/files'' (SecureAsyncHttpHandler ProxyContentRequest (Some True)),
      AddHandler ''/custom'' (SecureAsyncHttpHandler ProxyContentRequest (Some True)),
      AddHandler ''/session'' (SecureAsyncHttpHandler ProxyContentRequest (Some True)),
      AddHandler ''/docs'' (SecureAsyncHttpHandlerOfFileHandler True),
      AddHandler ''/html_preview'' (SecureAsyncHttpHandler ProxyContentRequest (Some True)),
      AddBlockingHandler ''/log'' SecureJsonRpcHandlerOfLogRequest,
      AddBlockingHandler ''/progress''
        (SecureHttpHandlerOfTemplate (wwwLocalPath env) ''progress.htm''),
      AddBlockingHandler (kBrowserUnsupported env) HandleBrowserUnsupportedRequest,
      AddBlockingHandler ''/templates'' NotFoundHandler,
      SetBlockingDefault BlockingFileHandler]"

definition registerHandlers :: block where
  \<comment> \<open>lines 379--401\<close>
  "registerHandlers env s =
     (if serverOffline env then (None, emit [OfflineAddHandlers] s)
      else
        (let s1 = emit (httpServerAddHandlers env @ [AddinsInitialize]) s
         in case addinsInitialize_result env of
              Some e \<Rightarrow> exitFailure e s1
            | None \<Rightarrow>
                (if \<not> authHandlerIsRegistered env then
                   (let s2 = emit [PamAuthInitialize] s1
                    in case pamAuthInitialize_result env of
                         Some e \<Rightarrow> exitFailure e s2
                       | None \<Rightarrow> (None, s2))
                 else (None, s1))))"

definition enforceAppArmor :: block where
  \<comment> \<open>lines 403--412\<close>
  "enforceAppArmor env s =
     (if serverAppArmorEnabled env
      then (None, logIfError (enforceRestricted_result env) (emit [EnforceRestricted] s))
      else (None, s))"

text \<open>
  Modelled from the spec: \<open>core::system::temporarilyDropPriv\<close> is declared in
  PosixSystem.hpp and its body is not part of the sources; \<open>main\<close> passes it the run-as
  user and tests the \<open>Error\<close> it returns. What a successful call does to the process is
  taken from the spec, which has the bootstrap "permanently drop elevated privilege" and
  defines the drop as "permanently relinquishing elevated OS privilege for the remaining
  process lifetime": the real, the effective and the saved user id all become the run-as
  user's. A call that returns an error is taken to have changed nothing.
\<close>

definition temporarilyDropPriv :: "env \<Rightarrow> string \<Rightarrow> process \<Rightarrow> error option \<times> process" where
  "temporarilyDropPriv env newUsername s =
     (let s1 = emit [TemporarilyDropPriv newUsername] s
      in case temporarilyDropPriv_result env of
           Some e \<Rightarrow> (Some e, s1)
         | None \<Rightarrow>
             (None,
              s1\<lparr>creds := \<lparr>realUid = userIdOf env newUsername,
                             effectiveUid = userIdOf env newUsername,
                             savedUid = userIdOf env newUsername\<rparr>\<rparr>))"

definition dropPrivilege :: block where
  \<comment> \<open>lines 414--422\<close>
  "dropPrivilege env s =
     (let runAsUser = serverUser env
      in if runAsUser \<noteq> [] then
           (case temporarilyDropPriv env runAsUser s of
              (Some e, s1) \<Rightarrow> exitFailure e s1
            | (None, s1) \<Rightarrow> (None, s1))
         else (None, s))"

definition runVerifyInstallation :: block where
  \<comment> \<open>lines 424--432\<close>
  "runVerifyInstallation env s =
     (if verifyInstallation env then
        (let s1 = emit [RunVerifyInstallationSession] s
         in case runVerifyInstallationSession_result env of
              Some e \<Rightarrow> exitFailure e s1
            | None \<Rightarrow> (Some (Exited EXIT_SUCCESS), s1))
      else (None, s))"

definition runHttpServer :: block where
  \<comment> \<open>lines 434--437\<close>
  "runHttpServer env s =
     (let s1 = emit [HttpServerRun (wwwThreadPoolSize env)] s
      in case httpServerRun_result env of
           Some e \<Rightarrow> exitFailure e s1
         | None \<Rightarrow> (None, s1))"

subsection \<open>\<open>waitForSignals\<close>\<close>

text \<open>
  The loop has no state variable of its own; the states the specification names are places
  in its control flow. \<open>Blocked\<close>: control is at (or back at) the \<open>sigwait\<close> at the top of
  the \<open>for\<close>. \<open>Terminating sig\<close>: the process was ended by the default action of \<open>sig\<close>
  inside the \<open>kill\<close> of line 245. \<open>Returned e\<close>: the function returned \<open>e\<close>.
\<close>

datatype waitState = Blocked | Terminating int | Returned error

text \<open>
  Modelled from the spec: \<open>core::system::clearSignalMask\<close> is not part of ServerMain.cpp;
  the spec has it "clear the process signal mask". A call that reports an error is taken to
  have left the mask as it was.
\<close>

definition clearSignalMask :: "sigwaitReturn \<Rightarrow> process \<Rightarrow> error option \<times> process" where
  "clearSignalMask r s =
     (let s1 = emit [ClearSignalMask] s
      in case clearSignalMask_result r of
           Some e \<Rightarrow> (Some e, s1)
         | None \<Rightarrow> (None, s1\<lparr>sigmask := {}\<rparr>))"

text \<open>
  The operating system's part, after POSIX. \<open>sigaction\<close> installs the disposition when it
  returns 0 and changes nothing otherwise. \<open>kill(getpid(), sig)\<close> generates \<open>sig\<close> for the
  calling process: when \<open>sig\<close> is not blocked and its disposition is the default one it is
  delivered before \<open>kill\<close> returns, and the default action of the signals the loop re-raises
  ends the process; a blocked signal stays pending, an ignored one is discarded and a caught
  one runs its handler, and in these three cases \<open>kill\<close> returns to the caller.
\<close>

definition sigaction :: "int \<Rightarrow> sighandler \<Rightarrow> int \<Rightarrow> process \<Rightarrow> int \<times> process" where
  "sigaction sig h result s =
     (let s1 = emit [SigactionCall sig h] s
      in if result = 0 then (0, s1\<lparr>sigdisp := (sigdisp s1)(sig := h)\<rparr>) else (result, s1))"

definition killSelf :: "int \<Rightarrow> process \<Rightarrow> bool \<times> process" where
  "killSelf sig s = (sig \<notin> sigmask s \<and> sigdisp s sig = SIG_DFL, emit [Kill sig] s)"

definition handleSignal :: "sigwaitReturn \<Rightarrow> process \<Rightarrow> waitState \<times> process" where
  \<comment> \<open>lines 217--253, the body of the loop after a \<open>sigwait\<close> that returned 0\<close>
  "handleSignal r s =
     (let sig = sigwait_sig r
      in if sig = SIGCHLD then (Blocked, emit [NotifySIGCHLD] s)
         else if sig = SIGINT \<or> sig = SIGQUIT \<or> sig = SIGTERM then
           (case clearSignalMask r s of
              (err, s1) \<Rightarrow>
                (case sigaction sig SIG_DFL (sigaction_result r) (logIfError err s1) of
                   (res, s2) \<Rightarrow>
                     (case killSelf sig
                             (if res \<noteq> 0 then emit [LogError (SystemError res)] s2 else s2) of
                        (ended, s3) \<Rightarrow> (if ended then Terminating sig else Blocked, s3))))
         else (Blocked, emit [LogWarningUnexpectedSignal sig] s))"

text \<open>
  The loop runs for as long as signals arrive. It is run here on the list of what the
  successive \<open>sigwait\<close> calls return: when the list is used up the process sits in
  \<open>sigwait\<close>, which is the state \<open>Blocked\<close>.
\<close>

fun waitLoop :: "sigwaitReturn list \<Rightarrow> process \<Rightarrow> waitState \<times> process" where
  "waitLoop [] s = (Blocked, s)"
| "waitLoop (r # rs) s =
     (if sigwait_result r \<noteq> 0 then (Returned (SystemError (sigwait_result r)), s)
      else (case handleSignal r s of
              (Blocked, s1) \<Rightarrow> waitLoop rs s1
            | (st, s1) \<Rightarrow> (st, s1)))"

definition waitForSignals :: "env \<Rightarrow> process \<Rightarrow> waitState \<times> process" where
  \<comment> \<open>lines 183--258\<close>
  "waitForSignals env s =
     (case sigaction SIGCHLD (HandlerFunction ''handleSIGCHLD'') (sigactionSIGCHLD_result env) s of
        (res, s1) \<Rightarrow>
          if res \<noteq> 0 then (Returned (SystemError (sigactionSIGCHLD_errno env)), s1)
          else
            (let s2 = emit [PthreadSigmaskBlock [SIGCHLD, SIGINT, SIGQUIT, SIGTERM]] s1
             in if pthreadSigmask_result env \<noteq> 0
                then (Returned (SystemError (pthreadSigmask_result env)), s2)
                else waitLoop (sigwaitReturns env)
                       (s2\<lparr>sigmask := sigmask s2 \<union> {SIGCHLD, SIGINT, SIGQUIT, SIGTERM}\<rparr>)))"

definition waitForSignalsBlock :: block where
  \<comment> \<open>lines 439--445\<close>
  "waitForSignalsBlock env s =
     (case waitForSignals env s of
        (Returned e, s1) \<Rightarrow> exitFailure e s1
      | (Terminating sig, s1) \<Rightarrow> (Some (KilledBySignal sig), s1)
      | (Blocked, s1) \<Rightarrow> (Some BlockedInSigwait, s1))"

subsection \<open>\<open>main\<close>\<close>

fun runBlocks :: "block list \<Rightarrow> env \<Rightarrow> process \<Rightarrow> ending option \<times> process" where
  "runBlocks [] env s = (None, s)"
| "runBlocks (b # bs) env s =
     (case b env s of
        (Some e, s1) \<Rightarrow> (Some e, s1)
      | (None, s1) \<Rightarrow> runBlocks bs env s1)"

definition startProcess :: "env \<Rightarrow> process" where
  "startProcess env =
     \<lparr>trace = [],
      creds = \<lparr>realUid = startRealUid env, effectiveUid = startEffectiveUid env,
               savedUid = startSavedUid env\<rparr>,
      sigmask = {},
      sigdisp = (\<lambda>sig. SIG_DFL)\<rparr>"

definition startup :: "block list" where
  \<comment> \<open>lines 308--362\<close>
  "startup =
     [initializeLog, readOptions, daemonizeIfRequested, detectREnvironment, raiseFilesLimit,
      setWorkingDir, initializeCrypto]"

definition securityModules :: "block list" where
  \<comment> \<open>lines 364--377\<close>
  "securityModules = [initializeSecureCookie, initializeSessionProxy, initializeHttpServer]"

definition bootstrap :: "block list" where
  \<comment> \<open>lines 308--422: everything up to and including the privilege drop\<close>
  "bootstrap = startup @ securityModules @ [registerHandlers, enforceAppArmor, dropPrivilege]"

definition running :: "block list" where
  \<comment> \<open>lines 424--445\<close>
  "running = [runVerifyInstallation, runHttpServer, waitForSignalsBlock]"

definition main :: "env \<Rightarrow> ending \<times> process" where
  "main env =
     (case runBlocks (bootstrap @ running) env (startProcess env) of
        (Some e, s) \<Rightarrow> (e, s)
      | (None, s) \<Rightarrow> (Exited EXIT_SUCCESS, s))"

section \<open>The file handler adapted to a secure asynchronous handler\<close>

text \<open>
  A blocking handler reads the request and fills in the response it is given a pointer to: a
  function from the request and the response so far to the response. The connection keeps
  the request, the response buffer, and what has been written to the client.
\<close>

record ('req, 'resp) asyncConnection =
  request :: 'req
  response :: 'resp
  written :: "'resp list"

type_synonym ('req, 'resp) uriHandlerFunction = "'req \<Rightarrow> 'resp \<Rightarrow> 'resp"

type_synonym ('req, 'resp) uriFilterFunction = "'req \<Rightarrow> 'resp \<Rightarrow> bool \<times> 'resp"

text \<open>
  Modelled from the spec: \<open>AsyncConnection::writeResponse\<close> belongs to the transport
  engine; in the spec the handler "signals completion" and the "connection writes response".
\<close>

definition writeResponse :: "('req, 'resp) asyncConnection \<Rightarrow> ('req, 'resp) asyncConnection" where
  "writeResponse c = c\<lparr>written := written c @ [response c]\<rparr>"

definition mainPageFilter ::
  "('req, 'resp) uriFilterFunction \<Rightarrow> ('req, 'resp) uriFilterFunction \<Rightarrow>
   ('req, 'resp) uriFilterFunction" where
  \<comment> \<open>lines 62--67; \<open>&&\<close> does not evaluate its right side when the left one is false\<close>
  "mainPageFilter supportedBrowserFilter authMainPageFilter req resp =
     (case supportedBrowserFilter req resp of
        (True, resp1) \<Rightarrow> authMainPageFilter req resp1
      | (False, resp1) \<Rightarrow> (False, resp1))"

definition blockingFileHandler ::
  "(string \<Rightarrow> string \<Rightarrow> ('req, 'resp) uriFilterFunction \<Rightarrow> ('req, 'resp) uriHandlerFunction) \<Rightarrow>
   string \<Rightarrow> ('req, 'resp) uriFilterFunction \<Rightarrow> ('req, 'resp) uriFilterFunction \<Rightarrow>
   ('req, 'resp) uriHandlerFunction" where
  \<comment> \<open>lines 70--76; \<open>gwt::fileHandlerFunction\<close> and the two filters are parameters\<close>
  "blockingFileHandler fileHandlerFunction localPath supportedBrowserFilter authMainPageFilter =
     fileHandlerFunction localPath ''/'' (mainPageFilter supportedBrowserFilter authMainPageFilter)"

definition handleRequest ::
  "('req, 'resp) uriHandlerFunction \<Rightarrow> ('req, 'resp) asyncConnection \<Rightarrow>
   ('req, 'resp) asyncConnection" where
  \<comment> \<open>lines 88--94\<close>
  "handleRequest fileHandlerFunction pConnection =
     writeResponse
       (pConnection\<lparr>response := fileHandlerFunction (request pConnection) (response pConnection)\<rparr>)"

definition secureAsyncFileHandler ::
  "('req, 'resp) uriHandlerFunction \<Rightarrow> string \<Rightarrow> ('req, 'resp) asyncConnection \<Rightarrow>
   ('req, 'resp) asyncConnection" where
  \<comment> \<open>lines 97--105; the argument is the value of \<open>blockingFileHandler()\<close>\<close>
  "secureAsyncFileHandler theBlockingFileHandler =
     (let asyncFileHandler = handleRequest theBlockingFileHandler
      in (\<lambda>username pConnection. asyncFileHandler pConnection))"

section \<open>Vocabulary of the properties\<close>

text \<open>
  \<open>fallsThrough bs env\<close>: started on \<open>env\<close>, none of the blocks \<open>bs\<close> leaves \<open>main\<close>,
  so the block after them is reached.
\<close>

definition fallsThrough :: "block list \<Rightarrow> env \<Rightarrow> bool" where
  "fallsThrough bs env = (fst (runBlocks bs env (startProcess env)) = None)"

text \<open>The blocks before the crypto initialisation, before the handlers are registered,
  before the AppArmor profile is enforced, and before the privilege is dropped.\<close>

definition beforeCrypto :: "block list" where
  "beforeCrypto =
     [initializeLog, readOptions, daemonizeIfRequested, detectREnvironment, raiseFilesLimit,
      setWorkingDir]"

definition beforeHandlers :: "block list" where
  "beforeHandlers = startup @ securityModules"

definition beforeAppArmor :: "block list" where
  "beforeAppArmor = startup @ securityModules @ [registerHandlers]"

definition beforePrivilegeDrop :: "block list" where
  "beforePrivilegeDrop = startup @ securityModules @ [registerHandlers, enforceAppArmor]"

text \<open>
  The block of \<open>main\<close> in which a call is made, counted from 1 in the order of the source;
  0 for an entry of the error log, which several blocks and the \<open>catch\<close> write.
\<close>

fun stage :: "event \<Rightarrow> nat" where
  "stage (LogError e) = 0"
| "stage InitializeSystemLog = 1"
| "stage IgnoreSigPipe = 1"
| "stage OptionsRead = 2"
| "stage Daemonize = 3"
| "stage IgnoreTerminalSignals = 3"
| "stage SetUMask = 3"
| "stage REnvironmentInitialize = 4"
| "stage (ReportError m) = 4"
| "stage (SetFilesLimit n) = 5"
| "stage (MakeCurrentPath d) = 6"
| "stage CryptoInitialize = 7"
| "stage SecureCookieInitialize = 8"
| "stage SessionProxyInitialize = 9"
| "stage HttpServerReset = 10"
| "stage (SetAbortOnResourceError b) = 10"
| "stage (HttpServerInit a p) = 10"
| "stage OfflineAddHandlers = 11"
| "stage (AddHandler p h) = 11"
| "stage (AddBlockingHandler p h) = 11"
| "stage (SetBlockingDefault h) = 11"
| "stage AddinsInitialize = 11"
| "stage PamAuthInitialize = 11"
| "stage EnforceRestricted = 12"
| "stage (TemporarilyDropPriv u) = 13"
| "stage RunVerifyInstallationSession = 14"
| "stage (HttpServerRun n) = 15"
| "stage (SigactionCall sig h) = 16"
| "stage (PthreadSigmaskBlock sigs) = 16"
| "stage NotifySIGCHLD = 16"
| "stage ClearSignalMask = 16"
| "stage (Kill sig) = 16"
| "stage (LogWarningUnexpectedSignal sig) = 16"
| "stage LogUnexpectedException = 0"

text \<open>A block is staged between \<open>lo\<close> and \<open>hi\<close> when it only appends to the trace, and
  only log entries and calls of the stages \<open>lo\<close> to \<open>hi\<close>.\<close>

definition stagedBlock :: "nat \<Rightarrow> nat \<Rightarrow> block \<Rightarrow> bool" where
  "stagedBlock lo hi b =
     (\<forall>env s. \<exists>es. trace (snd (b env s)) = trace s @ es \<and>
        (\<forall>e \<in> set es. stage e = 0 \<or> (lo \<le> stage e \<and> stage e \<le> hi)))"

text \<open>The calls that put an entry into the route table of the http server.\<close>

fun isRegistration :: "event \<Rightarrow> bool" where
  "isRegistration OfflineAddHandlers = True"
| "isRegistration (AddHandler p h) = True"
| "isRegistration (AddBlockingHandler p h) = True"
| "isRegistration (SetBlockingDefault h) = True"
| "isRegistration e = False"

text \<open>
  POSIX \<open>seteuid\<close>: a process whose effective user id is 0 may set any effective user id;
  any other process only its real, its effective or its saved user id. It is the call by
  which a process would take an elevated effective user id back.
\<close>

definition seteuid :: "nat \<Rightarrow> credentials \<Rightarrow> credentials option" where
  "seteuid uid c =
     (if effectiveUid c = 0 \<or> uid = realUid c \<or> uid = effectiveUid c \<or> uid = savedUid c
      then Some (c\<lparr>effectiveUid := uid\<rparr>) else None)"

text \<open>What \<open>sigwait\<close> returns for a child exit, for SIGTERM and for signal 10, with
  \<open>clearSignalMask\<close> and \<open>sigaction\<close> succeeding.\<close>

definition sigwaitGot :: "int \<Rightarrow> sigwaitReturn" where
  "sigwaitGot sig =
     \<lparr>sigwait_result = 0, sigwait_sig = sig, clearSignalMask_result = None, sigaction_result = 0\<rparr>"

text \<open>
  A run to instantiate the theorems on: started by root, not a daemon, every collaborator
  succeeding, no authentication provider registered, AppArmor off, run-as user
  \<open>rstudio-server\<close> (uid 998), four worker threads; \<open>sigwait\<close> then returns a child exit
  and SIGTERM.
\<close>

definition okEnv :: env where
  "okEnv =
     \<lparr>ignoreSigPipe_result = None, status_exit = False, status_exitCode = 0,
      serverDaemonize = False, daemonize_result = None, ignoreTerminalSignals_result = None,
      rEnvironment_detected = True, rEnvironment_errMsg = [],
      setResourceLimit_result = None, serverWorkingDir = ''/'',
      makeCurrentPath_result = None, cryptoInitialize_throws = False,
      secureCookieInitialize_result = None, sessionProxyInitialize_result = None,
      wwwAddress = ''0.0.0.0'', wwwPort = ''8787'', httpServerInit_result = None,
      serverOffline = False, wwwLocalPath = ''www'',
      kBrowserUnsupported = ''/unsupported_browser.htm'',
      addinsInitialize_result = None, authHandlerIsRegistered = False,
      pamAuthInitialize_result = None, serverAppArmorEnabled = False,
      enforceRestricted_result = None, serverUser = ''rstudio-server'',
      userIdOf = (\<lambda>u. 998), temporarilyDropPriv_result = None,
      verifyInstallation = False, runVerifyInstallationSession_result = None,
      wwwThreadPoolSize = 4, httpServerRun_result = None,
      sigactionSIGCHLD_result = 0, sigactionSIGCHLD_errno = 0, pthreadSigmask_result = 0,
      sigwaitReturns = [sigwaitGot SIGCHLD, sigwaitGot SIGTERM],
      startRealUid = 0, startEffectiveUid = 0, startSavedUid = 0\<rparr>"

text \<open>The same run with AppArmor on and both the enforcement of the restricted profile
  and the privilege drop failing.\<close>

definition sandboxAndDropFailEnv :: env where
  "sandboxAndDropFailEnv =
     okEnv\<lparr>serverAppArmorEnabled := True,
           enforceRestricted_result := Some (ModuleError ''aa_change_hat''),
           temporarilyDropPriv_result := Some (SystemError 1)\<rparr>"

text \<open>The same run with the crypto initialisation throwing, with the secure cookie module
  failing to initialise, and with the addins failing to initialise.\<close>

definition cryptoThrowsEnv :: env where
  "cryptoThrowsEnv = okEnv\<lparr>cryptoInitialize_throws := True\<rparr>"

definition cookieFailsEnv :: env where
  "cookieFailsEnv = okEnv\<lparr>secureCookieInitialize_result := Some (ModuleError ''secure-cookie-key'')\<rparr>"

definition addinsFailEnv :: env where
  "addinsFailEnv = okEnv\<lparr>addinsInitialize_result := Some (ModuleError ''addins'')\<rparr>"


text \<open>The same run with the privilege drop failing.\<close>

definition dropFailsEnv :: env where
  "dropFailsEnv = okEnv\<lparr>temporarilyDropPriv_result := Some (SystemError 1)\<rparr>"

text \<open>A connection carrying a request for the documentation, nothing answered yet, and a
  stand-in for the file handler that answers with a status line.\<close>

definition docsConnection :: "(string, string) asyncConnection" where
  "docsConnection = \<lparr>request = ''GET /docs/index.htm'', response = [], written = []\<rparr>"

definition statusLineHandler :: "(string, string) uriHandlerFunction" where
  "statusLineHandler req resp = resp @ ''200 '' @ req"

section \<open>The signal loop\<close>

lemmas signal_defs =
  handleSignal_def sigaction_def killSelf_def clearSignalMask_def emit_def logIfError_def

lemmas signum_defs = SIGCHLD_def SIGINT_def SIGQUIT_def SIGTERM_def

lemma handleSignal_SIGCHLD:
  "sigwait_sig r = SIGCHLD \<Longrightarrow>
     handleSignal r s = (Blocked, s\<lparr>trace := trace s @ [NotifySIGCHLD]\<rparr>)"
  by (simp add: handleSignal_def emit_def)

lemma handleSignal_count:
  "count_list (trace (snd (handleSignal r s))) NotifySIGCHLD =
     count_list (trace s) NotifySIGCHLD + (if sigwait_sig r = SIGCHLD then 1 else 0)"
  by (simp add: signal_defs Let_def signum_defs split: option.splits prod.splits)

lemma waitLoop_count:
  "waitLoop rs s = (Blocked, s') \<Longrightarrow>
     count_list (trace s') NotifySIGCHLD =
       count_list (trace s) NotifySIGCHLD + length (filter (\<lambda>r. sigwait_sig r = SIGCHLD) rs)"
proof (induction rs arbitrary: s)
  case Nil
  then show ?case by simp
next
  case (Cons r rs)
  obtain st s1 where h: "handleSignal r s = (st, s1)"
    by (cases "handleSignal r s")
  from Cons.prems h have rest: "waitLoop rs s1 = (Blocked, s')"
    by (auto split: if_splits waitState.splits)
  have "count_list (trace s1) NotifySIGCHLD =
     count_list (trace s) NotifySIGCHLD + (if sigwait_sig r = SIGCHLD then 1 else 0)"
    using handleSignal_count [of r s] h by simp
  then show ?case
    using Cons.IH [OF rest] by simp
qed

text \<open>
  C4. A child-exit signal observed in the state \<open>Blocked\<close> makes exactly one call of
  \<open>notifySIGCHLD\<close> and nothing else, and the loop goes on with the next \<open>sigwait\<close>.
  Over a whole run of the loop that is still (or again) blocked in \<open>sigwait\<close>, the number
  of \<open>notifySIGCHLD\<close> calls made is the number of child-exit signals observed.
\<close>

theorem sigchld_notifies_exactly_once:
  "(sigwait_sig r = SIGCHLD \<longrightarrow>
      handleSignal r s = (Blocked, s\<lparr>trace := trace s @ [NotifySIGCHLD]\<rparr>) \<and>
      (sigwait_result r = 0 \<longrightarrow>
         waitLoop (r # rs) s = waitLoop rs (s\<lparr>trace := trace s @ [NotifySIGCHLD]\<rparr>))) \<and>
   (waitLoop rs s = (Blocked, s') \<longrightarrow>
      count_list (trace s') NotifySIGCHLD =
        count_list (trace s) NotifySIGCHLD + length (filter (\<lambda>r. sigwait_sig r = SIGCHLD) rs))"
  using waitLoop_count [of rs s s'] by (simp add: handleSignal_SIGCHLD)

theorem sigchld_notifies_exactly_once_witness:
  "handleSignal (sigwaitGot SIGCHLD) (startProcess okEnv) =
     (Blocked, (startProcess okEnv)\<lparr>trace := [NotifySIGCHLD]\<rparr>) \<and>
   waitLoop [sigwaitGot SIGCHLD, sigwaitGot 10, sigwaitGot SIGCHLD] (startProcess okEnv) =
     (Blocked, (startProcess okEnv)
        \<lparr>trace := [NotifySIGCHLD, LogWarningUnexpectedSignal 10, NotifySIGCHLD]\<rparr>) \<and>
   count_list [NotifySIGCHLD, LogWarningUnexpectedSignal 10, NotifySIGCHLD] NotifySIGCHLD = 2"
  using sigchld_notifies_exactly_once
    [of "sigwaitGot SIGCHLD" "startProcess okEnv"
        "[sigwaitGot SIGCHLD, sigwaitGot 10, sigwaitGot SIGCHLD]"
        "(startProcess okEnv)
           \<lparr>trace := [NotifySIGCHLD, LogWarningUnexpectedSignal 10, NotifySIGCHLD]\<rparr>"]
  by (simp add: sigwaitGot_def startProcess_def handleSignal_def emit_def signum_defs)

text \<open>
  C9. A signal number returned by \<open>sigwait\<close> that is neither the child-exit signal nor
  SIGINT, SIGQUIT or SIGTERM is logged as a warning and changes nothing else; the state
  stays \<open>Blocked\<close> and the loop goes on with the next \<open>sigwait\<close>: it neither returns nor
  ends the process.
\<close>

theorem unexpected_signal_is_logged_and_loop_continues:
  assumes "sigwait_sig r \<noteq> SIGCHLD" and "sigwait_sig r \<noteq> SIGINT"
    and "sigwait_sig r \<noteq> SIGQUIT" and "sigwait_sig r \<noteq> SIGTERM"
  shows "handleSignal r s =
           (Blocked, s\<lparr>trace := trace s @ [LogWarningUnexpectedSignal (sigwait_sig r)]\<rparr>) \<and>
         (sigwait_result r = 0 \<longrightarrow>
            waitLoop (r # rs) s =
              waitLoop rs (s\<lparr>trace := trace s @ [LogWarningUnexpectedSignal (sigwait_sig r)]\<rparr>))"
  using assms by (simp add: handleSignal_def emit_def)

theorem unexpected_signal_is_logged_and_loop_continues_witness:
  "handleSignal (sigwaitGot 10) (startProcess okEnv) =
     (Blocked, (startProcess okEnv)\<lparr>trace := [LogWarningUnexpectedSignal 10]\<rparr>) \<and>
   waitLoop [sigwaitGot 10] (startProcess okEnv) =
     (Blocked, (startProcess okEnv)\<lparr>trace := [LogWarningUnexpectedSignal 10]\<rparr>)"
  using unexpected_signal_is_logged_and_loop_continues
    [of "sigwaitGot 10" "startProcess okEnv" "[]"]
  by (simp add: sigwaitGot_def startProcess_def signum_defs)




section \<open>The adapted file handler\<close>

text \<open>
  C5. For every blocking handler and every connection, the adapter runs the handler on the
  connection's request and response buffer, stores what the handler produced as the
  connection's response and writes exactly that response, once, before it returns; the request
  is untouched. The adapter returns only after the write: nothing is left pending.
\<close>

theorem adapter_runs_handler_then_writes_response:
  "handleRequest h c =
     c\<lparr>response := h (request c) (response c),
       written := written c @ [h (request c) (response c)]\<rparr>"
  by (simp add: handleRequest_def writeResponse_def)

theorem adapter_runs_handler_then_writes_response_witness:
  "handleRequest statusLineHandler docsConnection =
     \<lparr>request = ''GET /docs/index.htm'', response = ''200 GET /docs/index.htm'',
      written = [''200 GET /docs/index.htm'']\<rparr>"
  using adapter_runs_handler_then_writes_response [of statusLineHandler docsConnection]
  by (simp add: statusLineHandler_def docsConnection_def)

text \<open>
  C10. The secure asynchronous file handler does the same for every user name it is called
  with: for any two names and any connection (so any request) the resulting connection,
  response and written output included, is the same, namely what the adapter alone produces.
\<close>

theorem secure_file_handler_ignores_username:
  "secureAsyncFileHandler h username1 c = secureAsyncFileHandler h username2 c \<and>
   secureAsyncFileHandler h username1 c = handleRequest h c"
  by (simp add: secureAsyncFileHandler_def)

theorem secure_file_handler_ignores_username_witness:
  "secureAsyncFileHandler statusLineHandler ''alice'' docsConnection =
     secureAsyncFileHandler statusLineHandler ''bob'' docsConnection \<and>
   written (secureAsyncFileHandler statusLineHandler ''alice'' docsConnection) =
     [''200 GET /docs/index.htm'']"
proof -
  have written: "written (handleRequest statusLineHandler docsConnection) =
      [''200 GET /docs/index.htm'']"
    by (simp add: handleRequest_def writeResponse_def statusLineHandler_def docsConnection_def)
  show ?thesis
    using secure_file_handler_ignores_username
      [of statusLineHandler "''alice''" docsConnection "''bob''"] written
    by metis
qed

section \<open>The blocks of \<open>main\<close> write the trace in the order of the source\<close>

lemmas block_defs = catchUnexpectedException_def initializeLog_def readOptions_def daemonizeIfRequested_def detectREnvironment_def
  raiseFilesLimit_def setWorkingDir_def initializeCrypto_def initializeSecureCookie_def
  initializeSessionProxy_def initializeHttpServer_def httpServerInit_def registerHandlers_def
  enforceAppArmor_def dropPrivilege_def temporarilyDropPriv_def runVerifyInstallation_def
  runHttpServer_def exitFailure_def emit_def logIfError_def realUserIsRoot_def

lemma runBlocks_append:
  "runBlocks (ps @ qs) env s =
     (case runBlocks ps env s of (Some e, s1) \<Rightarrow> (Some e, s1) | (None, s1) \<Rightarrow> runBlocks qs env s1)"
  by (induction ps arbitrary: s) (auto split: prod.splits option.splits)

lemma stagedBlock_runBlocks:
  assumes "\<And>b. b \<in> set bs \<Longrightarrow> stagedBlock lo hi b"
  shows "stagedBlock lo hi (runBlocks bs)"
  using assms
proof (induction bs)
  case Nil
  then show ?case by (simp add: stagedBlock_def)
next
  case (Cons b bs)
  have hb: "stagedBlock lo hi b" using Cons.prems by simp
  have hbs: "stagedBlock lo hi (runBlocks bs)" using Cons by simp
  show ?case
    unfolding stagedBlock_def
  proof (intro allI)
    fix env s
    obtain es where es: "trace (snd (b env s)) = trace s @ es"
      "\<forall>e \<in> set es. stage e = 0 \<or> (lo \<le> stage e \<and> stage e \<le> hi)"
      using hb unfolding stagedBlock_def by blast
    obtain r s1 where b: "b env s = (r, s1)" by (cases "b env s")
    obtain es' where es': "trace (snd (runBlocks bs env s1)) = trace s1 @ es'"
      "\<forall>e \<in> set es'. stage e = 0 \<or> (lo \<le> stage e \<and> stage e \<le> hi)"
      using hbs unfolding stagedBlock_def by blast
    show "\<exists>es. trace (snd (runBlocks (b # bs) env s)) = trace s @ es \<and>
        (\<forall>e \<in> set es. stage e = 0 \<or> (lo \<le> stage e \<and> stage e \<le> hi))"
    proof (cases r)
      case None
      then have "trace (snd (runBlocks (b # bs) env s)) = trace s @ (es @ es')"
        using b es es' by simp
      moreover have "\<forall>e \<in> set (es @ es'). stage e = 0 \<or> (lo \<le> stage e \<and> stage e \<le> hi)"
        using es es' by auto
      ultimately show ?thesis by blast
    next
      case (Some a)
      then have "trace (snd (runBlocks (b # bs) env s)) = trace s @ es"
        using b es by simp
      then show ?thesis using es by blast
    qed
  qed
qed

lemma stagedBlock_mono:
  "stagedBlock lo hi b \<Longrightarrow> lo' \<le> lo \<Longrightarrow> hi \<le> hi' \<Longrightarrow> stagedBlock lo' hi' b"
  unfolding stagedBlock_def by (meson le_trans)

lemma staged_keeps: "stagedBlock lo hi b \<Longrightarrow> x \<in> set (trace s) \<Longrightarrow> x \<in> set (trace (snd (b env s)))"
  unfolding stagedBlock_def by (metis Un_iff set_append)

lemma staged_new:
  "stagedBlock lo hi b \<Longrightarrow> x \<in> set (trace (snd (b env s))) \<Longrightarrow>
     x \<in> set (trace s) \<or> stage x = 0 \<or> (lo \<le> stage x \<and> stage x \<le> hi)"
  unfolding stagedBlock_def by (metis Un_iff set_append)

lemma stage_addHandlers: "e \<in> set (httpServerAddHandlers env) \<Longrightarrow> stage e = 11"
  unfolding httpServerAddHandlers_def
  by (simp only: set_simps insert_iff empty_iff) (elim disjE; simp only: stage.simps)

lemma startup_staged: "b \<in> set startup \<Longrightarrow> stagedBlock 1 7 b"
  by (auto simp: startup_def stagedBlock_def block_defs Let_def split: option.splits)

lemma securityModules_staged: "b \<in> set securityModules \<Longrightarrow> stagedBlock 8 10 b"
  by (auto simp: securityModules_def stagedBlock_def block_defs Let_def split: option.splits)

lemma registerHandlers_staged: "stagedBlock 11 11 registerHandlers"
  by (auto simp: stagedBlock_def block_defs Let_def stage_addHandlers split: option.splits)

lemma enforceAppArmor_staged: "stagedBlock 12 12 enforceAppArmor"
  by (auto simp: stagedBlock_def block_defs Let_def split: option.splits)

lemma dropPrivilege_staged: "stagedBlock 13 13 dropPrivilege"
  by (auto simp: stagedBlock_def block_defs Let_def split: option.splits)

lemma runVerifyInstallation_staged: "stagedBlock 14 14 runVerifyInstallation"
  by (auto simp: stagedBlock_def block_defs Let_def split: option.splits)

lemma runHttpServer_staged: "stagedBlock 15 15 runHttpServer"
  by (auto simp: stagedBlock_def block_defs Let_def split: option.splits)

lemma handleSignal_staged:
  "\<exists>es. trace (snd (handleSignal r s)) = trace s @ es \<and> (\<forall>e \<in> set es. stage e = 0 \<or> stage e = 16)"
  by (auto simp: signal_defs Let_def split: option.splits prod.splits)

lemma waitLoop_staged:
  "\<exists>es. trace (snd (waitLoop rs s)) = trace s @ es \<and> (\<forall>e \<in> set es. stage e = 0 \<or> stage e = 16)"
proof (induction rs arbitrary: s)
  case Nil
  then show ?case by simp
next
  case (Cons r rs)
  obtain st s1 where h: "handleSignal r s = (st, s1)"
    by (cases "handleSignal r s")
  obtain es where es: "trace s1 = trace s @ es" "\<forall>e \<in> set es. stage e = 0 \<or> stage e = 16"
    using handleSignal_staged [of r s] h by auto
  obtain es' where es': "trace (snd (waitLoop rs s1)) = trace s1 @ es'"
    "\<forall>e \<in> set es'. stage e = 0 \<or> stage e = 16"
    using Cons.IH [of s1] by auto
  have "trace (snd (waitLoop rs s1)) = trace s @ (es @ es')"
    using es es' by simp
  moreover have "\<forall>e \<in> set (es @ es'). stage e = 0 \<or> stage e = 16"
    using es es' by auto
  ultimately have cont: "\<exists>es. trace (snd (waitLoop rs s1)) = trace s @ es \<and> (\<forall>e \<in> set es. stage e = 0 \<or> stage e = 16)"
    by blast
  show ?case
    using h es cont by (cases st) auto
qed

lemma waitForSignals_staged:
  "\<exists>es. trace (snd (waitForSignals env s)) = trace s @ es \<and> (\<forall>e \<in> set es. stage e = 0 \<or> stage e = 16)"
proof -
  obtain res s1 where sa:
    "sigaction SIGCHLD (HandlerFunction ''handleSIGCHLD'') (sigactionSIGCHLD_result env) s = (res, s1)"
    by (cases "sigaction SIGCHLD (HandlerFunction ''handleSIGCHLD'') (sigactionSIGCHLD_result env) s")
  have t1: "trace s1 = trace s @ [SigactionCall SIGCHLD (HandlerFunction ''handleSIGCHLD'')]"
    using sa by (auto simp: sigaction_def emit_def Let_def split: if_splits)
  let ?s2 = "emit [PthreadSigmaskBlock [SIGCHLD, SIGINT, SIGQUIT, SIGTERM]] s1"
  let ?s3 = "?s2\<lparr>sigmask := sigmask ?s2 \<union> {SIGCHLD, SIGINT, SIGQUIT, SIGTERM}\<rparr>"
  have t3: "trace ?s3 = trace s @ [SigactionCall SIGCHLD (HandlerFunction ''handleSIGCHLD''),
      PthreadSigmaskBlock [SIGCHLD, SIGINT, SIGQUIT, SIGTERM]]"
    using t1 by (simp add: emit_def)
  obtain es where es: "trace (snd (waitLoop (sigwaitReturns env) ?s3)) = trace ?s3 @ es"
    "\<forall>e \<in> set es. stage e = 0 \<or> stage e = 16"
    using waitLoop_staged by blast
  show ?thesis
  proof (cases "res \<noteq> 0")
    case True
    then have "trace (snd (waitForSignals env s)) = trace s1"
      by (simp add: waitForSignals_def sa)
    then show ?thesis using t1 by simp
  next
    case False
    show ?thesis
    proof (cases "pthreadSigmask_result env \<noteq> 0")
      case True
      then have "trace (snd (waitForSignals env s)) = trace ?s2"
        using False by (simp add: waitForSignals_def sa Let_def)
      then show ?thesis using t1 by (simp add: emit_def)
    next
      case nz: False
      have "waitForSignals env s = waitLoop (sigwaitReturns env) ?s3"
        using False nz by (simp add: waitForSignals_def sa Let_def)
      then have "trace (snd (waitForSignals env s)) =
          trace s @ ([SigactionCall SIGCHLD (HandlerFunction ''handleSIGCHLD''),
            PthreadSigmaskBlock [SIGCHLD, SIGINT, SIGQUIT, SIGTERM]] @ es)"
        using es(1) t3 by simp
      moreover have "\<forall>e \<in> set ([SigactionCall SIGCHLD (HandlerFunction ''handleSIGCHLD''),
            PthreadSigmaskBlock [SIGCHLD, SIGINT, SIGQUIT, SIGTERM]] @ es). stage e = 0 \<or> stage e = 16"
        using es(2) by simp
      ultimately show ?thesis by blast
    qed
  qed
qed

lemma waitForSignalsBlock_staged: "stagedBlock 16 16 waitForSignalsBlock"
  unfolding stagedBlock_def
proof (intro allI)
  fix env s
  obtain st s1 where w: "waitForSignals env s = (st, s1)"
    by (cases "waitForSignals env s")
  obtain es where "trace s1 = trace s @ es" "\<forall>e \<in> set es. stage e = 0 \<or> stage e = 16"
    using waitForSignals_staged [of env s] w by auto
  then show "\<exists>es. trace (snd (waitForSignalsBlock env s)) = trace s @ es \<and>
      (\<forall>e \<in> set es. stage e = 0 \<or> (16 \<le> stage e \<and> stage e \<le> 16))"
    using w by (cases st) (auto simp: waitForSignalsBlock_def exitFailure_def emit_def)
qed

lemma start_trace: "trace (startProcess env) = []"
  by (simp add: startProcess_def)

lemma staged_from_start:
  assumes "stagedBlock lo hi (runBlocks bs)"
    and "x \<in> set (trace (snd (runBlocks bs env (startProcess env))))"
  shows "stage x = 0 \<or> (lo \<le> stage x \<and> stage x \<le> hi)"
  using staged_new [OF assms(1) assms(2)] by (simp add: start_trace)

lemma bootstrap_staged: "stagedBlock 1 13 (runBlocks bootstrap)"
proof (rule stagedBlock_runBlocks)
  fix b assume "b \<in> set bootstrap"
  then consider "b \<in> set startup" | "b \<in> set securityModules" | "b = registerHandlers"
    | "b = enforceAppArmor" | "b = dropPrivilege"
    by (auto simp: bootstrap_def)
  then show "stagedBlock 1 13 b"
  proof cases
    case 1 then show ?thesis using stagedBlock_mono [OF startup_staged] by simp
  next
    case 2 then show ?thesis using stagedBlock_mono [OF securityModules_staged] by simp
  next
    case 3 then show ?thesis using stagedBlock_mono [OF registerHandlers_staged] by simp
  next
    case 4 then show ?thesis using stagedBlock_mono [OF enforceAppArmor_staged] by simp
  next
    case 5 then show ?thesis using stagedBlock_mono [OF dropPrivilege_staged] by simp
  qed
qed

lemma running_staged: "stagedBlock 14 16 (runBlocks running)"
proof (rule stagedBlock_runBlocks)
  fix b assume "b \<in> set running"
  then consider "b = runVerifyInstallation" | "b = runHttpServer" | "b = waitForSignalsBlock"
    by (auto simp: running_def)
  then show "stagedBlock 14 16 b"
  proof cases
    case 1 then show ?thesis using stagedBlock_mono [OF runVerifyInstallation_staged] by simp
  next
    case 2 then show ?thesis using stagedBlock_mono [OF runHttpServer_staged] by simp
  next
    case 3 then show ?thesis using stagedBlock_mono [OF waitForSignalsBlock_staged] by simp
  qed
qed

lemma main_exits_in:
  assumes "bootstrap @ running = ps @ qs"
    and "runBlocks ps env (startProcess env) = (Some e, s1)"
  shows "main env = (e, s1)"
  using assms by (simp add: main_def runBlocks_append)

lemma main_after:
  assumes "bootstrap @ running = ps @ qs"
    and "runBlocks ps env (startProcess env) = (None, s1)"
  shows "main env =
     (case runBlocks qs env s1 of (Some e, s) \<Rightarrow> (e, s) | (None, s) \<Rightarrow> (Exited EXIT_SUCCESS, s))"
  using assms by (simp add: main_def runBlocks_append)

lemma beforeHandlers_staged: "stagedBlock 1 10 (runBlocks beforeHandlers)"
proof (rule stagedBlock_runBlocks)
  fix b assume "b \<in> set beforeHandlers"
  then consider "b \<in> set startup" | "b \<in> set securityModules"
    by (auto simp: beforeHandlers_def)
  then show "stagedBlock 1 10 b"
  proof cases
    case 1 then show ?thesis using stagedBlock_mono [OF startup_staged] by simp
  next
    case 2 then show ?thesis using stagedBlock_mono [OF securityModules_staged] by simp
  qed
qed

lemma beforeAppArmor_staged: "stagedBlock 1 11 (runBlocks beforeAppArmor)"
proof (rule stagedBlock_runBlocks)
  fix b assume "b \<in> set beforeAppArmor"
  then consider "b \<in> set startup" | "b \<in> set securityModules" | "b = registerHandlers"
    by (auto simp: beforeAppArmor_def)
  then show "stagedBlock 1 11 b"
  proof cases
    case 1 then show ?thesis using stagedBlock_mono [OF startup_staged] by simp
  next
    case 2 then show ?thesis using stagedBlock_mono [OF securityModules_staged] by simp
  next
    case 3 then show ?thesis using stagedBlock_mono [OF registerHandlers_staged] by simp
  qed
qed

lemma beforePrivilegeDrop_staged: "stagedBlock 1 12 (runBlocks beforePrivilegeDrop)"
proof (rule stagedBlock_runBlocks)
  fix b assume "b \<in> set beforePrivilegeDrop"
  then consider "b \<in> set startup" | "b \<in> set securityModules" | "b = registerHandlers"
    | "b = enforceAppArmor"
    by (auto simp: beforePrivilegeDrop_def)
  then show "stagedBlock 1 12 b"
  proof cases
    case 1 then show ?thesis using stagedBlock_mono [OF startup_staged] by simp
  next
    case 2 then show ?thesis using stagedBlock_mono [OF securityModules_staged] by simp
  next
    case 3 then show ?thesis using stagedBlock_mono [OF registerHandlers_staged] by simp
  next
    case 4 then show ?thesis using stagedBlock_mono [OF enforceAppArmor_staged] by simp
  qed
qed

lemma main_after_parts:
  assumes "bootstrap @ running = ps @ qs"
    and "runBlocks ps env (startProcess env) = (None, s1)"
  shows "snd (main env) = snd (runBlocks qs env s1)"
    and "fst (main env) = (case fst (runBlocks qs env s1) of Some e \<Rightarrow> e | None \<Rightarrow> Exited EXIT_SUCCESS)"
  using main_after [OF assms] by (auto split: prod.splits option.splits)

lemma fallsThrough_state:
  "fallsThrough ps env \<Longrightarrow>
     runBlocks ps env (startProcess env) = (None, snd (runBlocks ps env (startProcess env)))"
  unfolding fallsThrough_def by (metis prod.collapse)

lemma split_at_privilegeDrop:
  "bootstrap @ running = beforePrivilegeDrop @ (dropPrivilege # running)"
  by (simp add: bootstrap_def beforePrivilegeDrop_def)

lemma split_at_handlers:
  "bootstrap @ running = beforeHandlers @ (registerHandlers # enforceAppArmor # dropPrivilege # running)"
  by (simp add: bootstrap_def beforeHandlers_def)

lemma running_keeps: "x \<in> set (trace s) \<Longrightarrow> x \<in> set (trace (snd (runBlocks running env s)))"
  using staged_keeps [OF running_staged] by simp

lemma dropPrivilege_cases:
  "dropPrivilege env s =
     (if serverUser env = [] then (None, s)
      else case temporarilyDropPriv_result env of
             Some e \<Rightarrow> (Some (Exited EXIT_FAILURE),
                        s\<lparr>trace := trace s @ [TemporarilyDropPriv (serverUser env), LogError e]\<rparr>)
           | None \<Rightarrow> (None,
                      s\<lparr>trace := trace s @ [TemporarilyDropPriv (serverUser env)],
                        creds := \<lparr>realUid = userIdOf env (serverUser env),
                                  effectiveUid = userIdOf env (serverUser env),
                                  savedUid = userIdOf env (serverUser env)\<rparr>\<rparr>))"
  by (simp add: dropPrivilege_def temporarilyDropPriv_def exitFailure_def emit_def Let_def
        split: option.splits)

lemma from_privilegeDrop_calls:
  assumes "serverUser env \<noteq> []"
  shows "TemporarilyDropPriv (serverUser env)
           \<in> set (trace (snd (runBlocks (dropPrivilege # running) env s)))"
proof (cases "temporarilyDropPriv_result env")
  case None
  then show ?thesis
    using assms by (simp add: dropPrivilege_cases running_keeps)
next
  case (Some e)
  then show ?thesis
    using assms by (simp add: dropPrivilege_cases)
qed

lemma from_privilegeDrop_keeps:
  "x \<in> set (trace s) \<Longrightarrow> x \<in> set (trace (snd (runBlocks (dropPrivilege # running) env s)))"
proof -
  have "stagedBlock 13 16 (runBlocks (dropPrivilege # running))"
  proof (rule stagedBlock_runBlocks)
    fix b assume "b \<in> set (dropPrivilege # running)"
    then consider "b = dropPrivilege" | "b = runVerifyInstallation" | "b = runHttpServer"
      | "b = waitForSignalsBlock"
      by (auto simp: running_def)
    then show "stagedBlock 13 16 b"
    proof cases
      case 1 then show ?thesis using stagedBlock_mono [OF dropPrivilege_staged] by simp
    next
      case 2 then show ?thesis using stagedBlock_mono [OF runVerifyInstallation_staged] by simp
    next
      case 3 then show ?thesis using stagedBlock_mono [OF runHttpServer_staged] by simp
    next
      case 4 then show ?thesis using stagedBlock_mono [OF waitForSignalsBlock_staged] by simp
    qed
  qed
  then show "x \<in> set (trace s) \<Longrightarrow> x \<in> set (trace (snd (runBlocks (dropPrivilege # running) env s)))"
    by (rule staged_keeps)
qed

lemma snd_main: "snd (main env) = snd (runBlocks (bootstrap @ running) env (startProcess env))"
  by (simp add: main_def split: prod.splits option.splits)

lemma runBlocks_preserves:
  assumes "\<And>b s. b \<in> set bs \<Longrightarrow> P s \<Longrightarrow> P (snd (b env s))" and "P s"
  shows "P (snd (runBlocks bs env s))"
  using assms
proof (induction bs arbitrary: s)
  case Nil
  then show ?case by simp
next
  case (Cons b bs)
  obtain r s1 where b: "b env s = (r, s1)" by (cases "b env s")
  have p1: "P s1" using Cons.prems(1) [of b s] Cons.prems(2) b by simp
  show ?case
  proof (cases r)
    case None
    then show ?thesis using Cons.IH [of s1] Cons.prems(1) p1 b by simp
  next
    case (Some a)
    then show ?thesis using p1 b by simp
  qed
qed

lemma any_block_staged: "b \<in> set (bootstrap @ running) \<Longrightarrow> stagedBlock 1 16 b"
proof -
  assume "b \<in> set (bootstrap @ running)"
  then consider "b \<in> set startup" | "b \<in> set securityModules" | "b = registerHandlers"
    | "b = enforceAppArmor" | "b = dropPrivilege" | "b = runVerifyInstallation"
    | "b = runHttpServer" | "b = waitForSignalsBlock"
    by (auto simp: bootstrap_def running_def)
  then show "stagedBlock 1 16 b"
  proof cases
    case 1 then show ?thesis using stagedBlock_mono [OF startup_staged] by simp
  next
    case 2 then show ?thesis using stagedBlock_mono [OF securityModules_staged] by simp
  next
    case 3 then show ?thesis using stagedBlock_mono [OF registerHandlers_staged] by simp
  next
    case 4 then show ?thesis using stagedBlock_mono [OF enforceAppArmor_staged] by simp
  next
    case 5 then show ?thesis using stagedBlock_mono [OF dropPrivilege_staged] by simp
  next
    case 6 then show ?thesis using stagedBlock_mono [OF runVerifyInstallation_staged] by simp
  next
    case 7 then show ?thesis using stagedBlock_mono [OF runHttpServer_staged] by simp
  next
    case 8 then show ?thesis using stagedBlock_mono [OF waitForSignalsBlock_staged] by simp
  qed
qed

lemma keeps_through:
  assumes "set bs \<subseteq> set (bootstrap @ running)" and "x \<in> set (trace s)"
  shows "x \<in> set (trace (snd (runBlocks bs env s)))"
proof (rule staged_keeps [OF _ assms(2)])
  show "stagedBlock 1 16 (runBlocks bs)"
    by (rule stagedBlock_runBlocks) (use assms(1) any_block_staged in blast)
qed

lemma PamAuthInitialize_notin_addHandlers: "PamAuthInitialize \<notin> set (httpServerAddHandlers env)"
  by (simp add: httpServerAddHandlers_def)

lemma registered_block_keeps_pam_out:
  assumes "authHandlerIsRegistered env" and "b \<in> set (bootstrap @ running)"
    and "PamAuthInitialize \<notin> set (trace s)"
  shows "PamAuthInitialize \<notin> set (trace (snd (b env s)))"
proof -
  consider "b \<in> set startup" | "b \<in> set securityModules" | "b = registerHandlers"
    | "b = enforceAppArmor" | "b = dropPrivilege" | "b \<in> set running"
    using assms(2) by (auto simp: bootstrap_def)
  then show ?thesis
  proof cases
    case 1 then show ?thesis
      using staged_new [OF startup_staged, of b PamAuthInitialize env s] assms(3) by auto
  next
    case 2 then show ?thesis
      using staged_new [OF securityModules_staged, of b PamAuthInitialize env s] assms(3) by auto
  next
    case 3 then show ?thesis
      using assms(1,3) PamAuthInitialize_notin_addHandlers [of env]
      by (simp add: registerHandlers_def exitFailure_def emit_def Let_def split: option.splits)
  next
    case 4 then show ?thesis
      using staged_new [OF enforceAppArmor_staged, of PamAuthInitialize env s] assms(3) by auto
  next
    case 5 then show ?thesis
      using staged_new [OF dropPrivilege_staged, of PamAuthInitialize env s] assms(3) by auto
  next
    case 6
    then have "stagedBlock 14 16 b"
      using stagedBlock_mono [OF runVerifyInstallation_staged, of 14 16]
        stagedBlock_mono [OF runHttpServer_staged, of 14 16]
        stagedBlock_mono [OF waitForSignalsBlock_staged, of 14 16]
      by (auto simp: running_def)
    then show ?thesis
      using staged_new [of 14 16 b PamAuthInitialize env s] assms(3) by auto
  qed
qed

lemma securityModules_failure:
  assumes "secureCookieInitialize_result env \<noteq> None \<or> sessionProxyInitialize_result env \<noteq> None \<or>
    httpServerInit_result env \<noteq> None"
  shows "fst (runBlocks securityModules env s) = Some (Exited EXIT_FAILURE)"
  using assms
  by (auto simp: securityModules_def initializeSecureCookie_def initializeSessionProxy_def
        initializeHttpServer_def httpServerInit_def exitFailure_def Let_def split: option.splits)

lemma isRegistration_stage: "isRegistration x \<Longrightarrow> stage x = 11"
  by (cases x) simp_all

lemma handleSignal_creds: "creds (snd (handleSignal r s)) = creds s"
  by (simp add: signal_defs Let_def split: option.splits prod.splits)

lemma waitLoop_creds: "creds (snd (waitLoop rs s)) = creds s"
proof (induction rs arbitrary: s)
  case Nil
  then show ?case by simp
next
  case (Cons r rs)
  obtain st s1 where h: "handleSignal r s = (st, s1)"
    by (cases "handleSignal r s")
  have "creds s1 = creds s"
    using handleSignal_creds [of r s] h by simp
  then show ?case
    using h Cons.IH [of s1] by (cases st) auto
qed

lemma waitForSignalsBlock_creds: "creds (snd (waitForSignalsBlock env s)) = creds s"
proof -
  have "creds (snd (waitForSignals env s)) = creds s"
    by (simp add: waitForSignals_def sigaction_def emit_def Let_def waitLoop_creds)
  then show ?thesis
    by (cases "waitForSignals env s"; cases "fst (waitForSignals env s)")
       (auto simp: waitForSignalsBlock_def exitFailure_def emit_def)
qed

lemma other_blocks_keep_creds:
  "b \<in> set (beforePrivilegeDrop @ running) \<Longrightarrow> creds (snd (b env s)) = creds s"
  by (auto simp: beforePrivilegeDrop_def startup_def securityModules_def running_def block_defs
        Let_def waitForSignalsBlock_creds split: option.splits)

lemma runBlocks_keep_creds:
  assumes "set bs \<subseteq> set (beforePrivilegeDrop @ running)"
  shows "creds (snd (runBlocks bs env s)) = creds s"
  by (rule runBlocks_preserves [where P = "\<lambda>s'. creds s' = creds s"])
     (use assms other_blocks_keep_creds in auto)

lemma main_okEnv:
  "main okEnv =
     (KilledBySignal SIGTERM,
      \<lparr>trace =
         [InitializeSystemLog, IgnoreSigPipe, OptionsRead, REnvironmentInitialize,
          SetFilesLimit 4096, MakeCurrentPath ''/'', CryptoInitialize, SecureCookieInitialize,
          SessionProxyInitialize, HttpServerReset, SetAbortOnResourceError True,
          HttpServerInit ''0.0.0.0'' ''8787''] @
         httpServerAddHandlers okEnv @
         [AddinsInitialize, PamAuthInitialize, TemporarilyDropPriv ''rstudio-server'',
          HttpServerRun 4, SigactionCall SIGCHLD (HandlerFunction ''handleSIGCHLD''),
          PthreadSigmaskBlock [SIGCHLD, SIGINT, SIGQUIT, SIGTERM], NotifySIGCHLD,
          ClearSignalMask, SigactionCall SIGTERM SIG_DFL, Kill SIGTERM],
       creds = \<lparr>realUid = 998, effectiveUid = 998, savedUid = 998\<rparr>,
       sigmask = {},
       sigdisp = (\<lambda>sig. SIG_DFL)
         (SIGCHLD := HandlerFunction ''handleSIGCHLD'', SIGTERM := SIG_DFL)\<rparr>)"
  by (simp add: main_def bootstrap_def startup_def securityModules_def running_def block_defs
        okEnv_def startProcess_def waitForSignalsBlock_def waitForSignals_def handleSignal_def
        sigaction_def killSelf_def clearSignalMask_def sigwaitGot_def signum_defs)

lemma running_keeps_creds: "creds (snd (runBlocks running env s)) = creds s"
  by (rule runBlocks_keep_creds) simp

lemma main_addinsFailEnv:
  "main addinsFailEnv =
     (Exited EXIT_FAILURE,
      (startProcess addinsFailEnv)
        \<lparr>trace :=
           [InitializeSystemLog, IgnoreSigPipe, OptionsRead, REnvironmentInitialize,
            SetFilesLimit 4096, MakeCurrentPath ''/'', CryptoInitialize, SecureCookieInitialize,
            SessionProxyInitialize, HttpServerReset, SetAbortOnResourceError True,
            HttpServerInit ''0.0.0.0'' ''8787''] @
           httpServerAddHandlers addinsFailEnv @
           [AddinsInitialize, LogError (ModuleError ''addins'')]\<rparr>)"
  by (simp add: main_def bootstrap_def startup_def securityModules_def block_defs
        addinsFailEnv_def okEnv_def startProcess_def)

lemma beforeCrypto_staged: "b \<in> set beforeCrypto \<Longrightarrow> stagedBlock 1 6 b"
  by (auto simp: beforeCrypto_def stagedBlock_def block_defs Let_def split: option.splits)

lemma startup_runBlocks_staged: "stagedBlock 1 7 (runBlocks startup)"
  by (rule stagedBlock_runBlocks) (rule startup_staged)

lemma split_at_startup:
  "bootstrap @ running =
     startup @ (securityModules @ [registerHandlers, enforceAppArmor, dropPrivilege] @ running)"
  by (simp add: bootstrap_def)

lemma startup_split: "startup = beforeCrypto @ [initializeCrypto]"
  by (simp add: startup_def beforeCrypto_def)

section \<open>Properties of \<open>main\<close>\<close>

text \<open>
  C8. With the verify-installation option set, no run of \<open>main\<close> ever starts the http
  server. When the bootstrap (everything up to and including the privilege drop) goes
  through, the verification session is the one call made after it, and \<open>main\<close> returns at
  once with its result: \<open>EXIT_SUCCESS\<close> when the session succeeded, and otherwise
  \<open>EXIT_FAILURE\<close> after logging the error.
\<close>

theorem verify_installation_exits_without_running_server:
  assumes "verifyInstallation env"
  shows "HttpServerRun n \<notin> set (trace (snd (main env))) \<and>
         (fallsThrough bootstrap env \<longrightarrow>
            trace (snd (main env)) =
              trace (snd (runBlocks bootstrap env (startProcess env))) @
                RunVerifyInstallationSession #
                  (case runVerifyInstallationSession_result env of
                     None \<Rightarrow> [] | Some e \<Rightarrow> [LogError e]) \<and>
            fst (main env) =
              Exited (case runVerifyInstallationSession_result env of
                        None \<Rightarrow> EXIT_SUCCESS | Some e \<Rightarrow> EXIT_FAILURE))"
proof -
  obtain r s1 where rb: "runBlocks bootstrap env (startProcess env) = (r, s1)"
    by (cases "runBlocks bootstrap env (startProcess env)")
  have early: "stage x = 0 \<or> (1 \<le> stage x \<and> stage x \<le> 13)" if "x \<in> set (trace s1)" for x
    using staged_from_start [OF bootstrap_staged, of x env] that rb by simp
  have no: "HttpServerRun n \<notin> set (trace s1)"
    using early [of "HttpServerRun n"] by auto
  show ?thesis
  proof (cases r)
    case (Some e)
    then have "main env = (e, s1)"
      using main_exits_in [of bootstrap running env e s1] rb by simp
    then show ?thesis
      using no rb Some by (simp add: fallsThrough_def)
  next
    case None
    have "main env =
      (case runBlocks running env s1 of (Some e, s) \<Rightarrow> (e, s) | (None, s) \<Rightarrow> (Exited EXIT_SUCCESS, s))"
      using main_after [of bootstrap running env s1] rb None by simp
    then show ?thesis
      using assms no rb
      by (simp add: running_def runVerifyInstallation_def exitFailure_def emit_def Let_def
            split: option.splits)
  qed
qed

theorem verify_installation_exits_without_running_server_witness:
  "verifyInstallation (okEnv\<lparr>verifyInstallation := True\<rparr>) \<and>
   fallsThrough bootstrap (okEnv\<lparr>verifyInstallation := True\<rparr>) \<and>
   HttpServerRun 4 \<notin> set (trace (snd (main (okEnv\<lparr>verifyInstallation := True\<rparr>)))) \<and>
   fst (main (okEnv\<lparr>verifyInstallation := True\<rparr>)) = Exited EXIT_SUCCESS"
proof -
  have through: "fallsThrough bootstrap (okEnv\<lparr>verifyInstallation := True\<rparr>)"
    by (simp add: fallsThrough_def bootstrap_def startup_def securityModules_def block_defs
          okEnv_def startProcess_def)
  have session: "runVerifyInstallationSession_result (okEnv\<lparr>verifyInstallation := True\<rparr>) = None"
    by (simp add: okEnv_def)
  have verify: "verifyInstallation (okEnv\<lparr>verifyInstallation := True\<rparr>)"
    by simp
  note run = verify_installation_exits_without_running_server [OF verify, of 4]
  have norun: "HttpServerRun 4 \<notin> set (trace (snd (main (okEnv\<lparr>verifyInstallation := True\<rparr>))))"
    using run by (rule conjunct1)
  have code: "fst (main (okEnv\<lparr>verifyInstallation := True\<rparr>)) = Exited EXIT_SUCCESS"
    using run through session by simp
  show ?thesis
    using verify through norun code by blast
qed

text \<open>
  C7. The AppArmor block never leaves \<open>main\<close>. When it is reached with AppArmor enabled and
  enforcing the restricted profile fails, the failure is written to the error log and the
  run goes on to the privilege-drop block (which, a run-as user being configured, calls the
  privilege drop). When the privilege drop is reached, a run-as user is configured and the
  drop fails, \<open>main\<close> logs the error and returns \<open>EXIT_FAILURE\<close>, and nothing of the later
  blocks (verification session, http server, signal loop) has been called.
\<close>

theorem sandbox_failure_is_logged_privilege_drop_failure_is_fatal:
  "fst (enforceAppArmor env s) = None \<and>
   (fallsThrough beforeAppArmor env \<and> serverAppArmorEnabled env \<and>
    enforceRestricted_result env = Some e \<longrightarrow>
      fallsThrough beforePrivilegeDrop env \<and>
      EnforceRestricted \<in> set (trace (snd (main env))) \<and>
      LogError e \<in> set (trace (snd (main env))) \<and>
      (serverUser env \<noteq> [] \<longrightarrow>
         TemporarilyDropPriv (serverUser env) \<in> set (trace (snd (main env))))) \<and>
   (fallsThrough beforePrivilegeDrop env \<and> serverUser env \<noteq> [] \<and>
    temporarilyDropPriv_result env = Some e' \<longrightarrow>
      fst (main env) = Exited EXIT_FAILURE \<and>
      LogError e' \<in> set (trace (snd (main env))) \<and>
      (\<forall>x \<in> set (trace (snd (main env))). stage x < 14))"
proof (intro conjI impI)
  show "fst (enforceAppArmor env s) = None"
    by (simp add: enforceAppArmor_def)
next
  assume a: "fallsThrough beforeAppArmor env \<and> serverAppArmorEnabled env \<and>
    enforceRestricted_result env = Some e"
  define s1 where "s1 = snd (runBlocks beforeAppArmor env (startProcess env))"
  define s2 where "s2 = s1\<lparr>trace := trace s1 @ [EnforceRestricted, LogError e]\<rparr>"
  have r1: "runBlocks beforeAppArmor env (startProcess env) = (None, s1)"
    using a fallsThrough_state s1_def by simp
  have aa: "enforceAppArmor env s1 = (None, s2)"
    using a by (simp add: enforceAppArmor_def logIfError_def emit_def s2_def)
  have r2: "runBlocks beforePrivilegeDrop env (startProcess env) = (None, s2)"
    using r1 aa runBlocks_append [of beforeAppArmor "[enforceAppArmor]" env "startProcess env"]
    by (simp add: beforePrivilegeDrop_def beforeAppArmor_def)
  show "fallsThrough beforePrivilegeDrop env"
    using r2 by (simp add: fallsThrough_def)
  have final: "snd (main env) = snd (runBlocks (dropPrivilege # running) env s2)"
    using main_after_parts(1) [OF split_at_privilegeDrop r2] .
  show "EnforceRestricted \<in> set (trace (snd (main env)))"
    unfolding final by (rule from_privilegeDrop_keeps) (simp add: s2_def)
  show "LogError e \<in> set (trace (snd (main env)))"
    unfolding final by (rule from_privilegeDrop_keeps) (simp add: s2_def)
  show "TemporarilyDropPriv (serverUser env) \<in> set (trace (snd (main env)))"
    if "serverUser env \<noteq> []"
    unfolding final using that by (rule from_privilegeDrop_calls)
next
  assume b: "fallsThrough beforePrivilegeDrop env \<and> serverUser env \<noteq> [] \<and>
    temporarilyDropPriv_result env = Some e'"
  define s2 where "s2 = snd (runBlocks beforePrivilegeDrop env (startProcess env))"
  have r2: "runBlocks beforePrivilegeDrop env (startProcess env) = (None, s2)"
    using b fallsThrough_state s2_def by simp
  have early: "stage x = 0 \<or> (1 \<le> stage x \<and> stage x \<le> 12)" if "x \<in> set (trace s2)" for x
    using staged_from_start [OF beforePrivilegeDrop_staged, of x env] that s2_def by simp
  have dp: "runBlocks (dropPrivilege # running) env s2 =
      (Some (Exited EXIT_FAILURE),
       s2\<lparr>trace := trace s2 @ [TemporarilyDropPriv (serverUser env), LogError e']\<rparr>)"
    using b by (simp add: dropPrivilege_cases)
  show "fst (main env) = Exited EXIT_FAILURE"
    using main_after_parts(2) [OF split_at_privilegeDrop r2] dp by simp
  have final: "trace (snd (main env)) = trace s2 @ [TemporarilyDropPriv (serverUser env), LogError e']"
    using main_after_parts(1) [OF split_at_privilegeDrop r2] dp by simp
  show "LogError e' \<in> set (trace (snd (main env)))"
    unfolding final by simp
  show "\<forall>x \<in> set (trace (snd (main env))). stage x < 14"
    unfolding final using early by fastforce
qed

theorem sandbox_failure_is_logged_privilege_drop_failure_is_fatal_witness:
  "fallsThrough beforeAppArmor sandboxAndDropFailEnv \<and>
   fallsThrough beforePrivilegeDrop sandboxAndDropFailEnv \<and>
   LogError (ModuleError ''aa_change_hat'') \<in> set (trace (snd (main sandboxAndDropFailEnv))) \<and>
   TemporarilyDropPriv ''rstudio-server'' \<in> set (trace (snd (main sandboxAndDropFailEnv))) \<and>
   fst (main sandboxAndDropFailEnv) = Exited EXIT_FAILURE"
proof -
  have reached: "fallsThrough beforeAppArmor sandboxAndDropFailEnv"
    by (simp add: fallsThrough_def beforeAppArmor_def startup_def securityModules_def block_defs
          sandboxAndDropFailEnv_def okEnv_def startProcess_def)
  have fields: "serverAppArmorEnabled sandboxAndDropFailEnv"
    "enforceRestricted_result sandboxAndDropFailEnv = Some (ModuleError ''aa_change_hat'')"
    "serverUser sandboxAndDropFailEnv = ''rstudio-server''"
    "temporarilyDropPriv_result sandboxAndDropFailEnv = Some (SystemError 1)"
    by (simp_all add: sandboxAndDropFailEnv_def okEnv_def)
  show ?thesis
    using sandbox_failure_is_logged_privilege_drop_failure_is_fatal
      [of sandboxAndDropFailEnv "startProcess sandboxAndDropFailEnv"
          "ModuleError ''aa_change_hat''" "SystemError 1"]
      reached fields
    by simp
qed

text \<open>
  C6, as the code has it. In no run with an authentication provider registered is the PAM
  authenticator initialised. In a run that is not offline and reaches the registration of
  the handlers, the addins are initialised first: when that succeeds, the PAM authenticator
  is initialised exactly when no provider is registered; when it fails, \<open>main\<close> returns
  \<open>EXIT_FAILURE\<close> before the question is asked and the PAM authenticator is not
  initialised, registered provider or not.
\<close>

theorem pam_fallback_only_without_registered_provider:
  "(authHandlerIsRegistered env \<longrightarrow> PamAuthInitialize \<notin> set (trace (snd (main env)))) \<and>
   (fallsThrough beforeHandlers env \<and> \<not> serverOffline env \<and> addinsInitialize_result env = None \<longrightarrow>
      (PamAuthInitialize \<in> set (trace (snd (main env))) \<longleftrightarrow> \<not> authHandlerIsRegistered env)) \<and>
   (fallsThrough beforeHandlers env \<and> \<not> serverOffline env \<and>
    addinsInitialize_result env = Some e \<longrightarrow>
      PamAuthInitialize \<notin> set (trace (snd (main env))) \<and> fst (main env) = Exited EXIT_FAILURE)"
proof -
  have never: "PamAuthInitialize \<notin> set (trace (snd (main env)))" if reg: "authHandlerIsRegistered env"
    unfolding snd_main
    by (rule runBlocks_preserves [where P = "\<lambda>s. PamAuthInitialize \<notin> set (trace s)"])
       (use reg registered_block_keeps_pam_out in \<open>auto simp: start_trace\<close>)
  have called: "PamAuthInitialize \<in> set (trace (snd (main env)))"
    if reach: "fallsThrough beforeHandlers env" and online: "\<not> serverOffline env"
      and addins: "addinsInitialize_result env = None" and noreg: "\<not> authHandlerIsRegistered env"
  proof -
    define s1 where "s1 = snd (runBlocks beforeHandlers env (startProcess env))"
    have r1: "runBlocks beforeHandlers env (startProcess env) = (None, s1)"
      using reach fallsThrough_state s1_def by simp
    obtain r s2 where rh: "registerHandlers env s1 = (r, s2)"
      by (cases "registerHandlers env s1")
    have pam: "PamAuthInitialize \<in> set (trace s2)"
      using rh online addins noreg
      by (auto simp: registerHandlers_def exitFailure_def emit_def Let_def split: option.splits)
    have sub: "set [enforceAppArmor, dropPrivilege, runVerifyInstallation, runHttpServer,
        waitForSignalsBlock] \<subseteq> set (bootstrap @ running)"
      by (auto simp: bootstrap_def running_def)
    have "PamAuthInitialize \<in> set (trace (snd (runBlocks
        (registerHandlers # enforceAppArmor # dropPrivilege # running) env s1)))"
    proof (cases r)
      case None
      then show ?thesis
        using rh keeps_through [OF sub pam, of env] by (simp add: running_def)
    next
      case (Some a)
      then show ?thesis using rh pam by simp
    qed
    then show ?thesis
      using main_after_parts(1) [OF split_at_handlers r1] by simp
  qed
  have failed: "PamAuthInitialize \<notin> set (trace (snd (main env))) \<and>
      fst (main env) = Exited EXIT_FAILURE"
    if reach: "fallsThrough beforeHandlers env" and online: "\<not> serverOffline env"
      and addins: "addinsInitialize_result env = Some e"
  proof -
    define s1 where "s1 = snd (runBlocks beforeHandlers env (startProcess env))"
    have r1: "runBlocks beforeHandlers env (startProcess env) = (None, s1)"
      using reach fallsThrough_state s1_def by simp
    have early: "PamAuthInitialize \<notin> set (trace s1)"
      using staged_from_start [OF beforeHandlers_staged, of PamAuthInitialize env] s1_def by auto
    have rh: "runBlocks (registerHandlers # enforceAppArmor # dropPrivilege # running) env s1 =
        (Some (Exited EXIT_FAILURE),
         s1\<lparr>trace := trace s1 @ httpServerAddHandlers env @ [AddinsInitialize, LogError e]\<rparr>)"
      using online addins by (simp add: registerHandlers_def exitFailure_def emit_def)
    show ?thesis
      using main_after_parts [OF split_at_handlers r1] rh early
        PamAuthInitialize_notin_addHandlers [of env]
      by simp
  qed
  show ?thesis
    using never called failed by blast
qed

theorem pam_fallback_only_without_registered_provider_witness:
  "fallsThrough beforeHandlers okEnv \<and>
   PamAuthInitialize \<in> set (trace (snd (main okEnv))) \<and>
   PamAuthInitialize \<notin> set (trace (snd (main (okEnv\<lparr>authHandlerIsRegistered := True\<rparr>))))"
proof -
  have reached: "fallsThrough beforeHandlers okEnv"
    by (simp add: fallsThrough_def beforeHandlers_def startup_def securityModules_def block_defs
          okEnv_def startProcess_def)
  have fields: "\<not> serverOffline okEnv" "addinsInitialize_result okEnv = None"
    "\<not> authHandlerIsRegistered okEnv"
    by (simp_all add: okEnv_def)
  have called: "PamAuthInitialize \<in> set (trace (snd (main okEnv)))"
    using pam_fallback_only_without_registered_provider [of okEnv] reached fields by blast
  have skipped:
    "PamAuthInitialize \<notin> set (trace (snd (main (okEnv\<lparr>authHandlerIsRegistered := True\<rparr>))))"
    using pam_fallback_only_without_registered_provider
      [of "okEnv\<lparr>authHandlerIsRegistered := True\<rparr>"]
    by simp
  show ?thesis
    using reached called skipped by blast
qed


text \<open>
  The claim C6 as stated, that in a non-offline run the PAM authenticator is initialised
  whenever no provider is registered, fails on \<open>addinsFailEnv\<close>: the run reaches the
  registration of the handlers, it is not offline, no provider is registered, the addins fail
  to initialise, and \<open>main\<close> returns \<open>EXIT_FAILURE\<close> without initialising PAM.
\<close>

theorem addins_failure_skips_pam_fallback:
  "fallsThrough beforeHandlers addinsFailEnv \<and>
   \<not> serverOffline addinsFailEnv \<and>
   \<not> authHandlerIsRegistered addinsFailEnv \<and>
   PamAuthInitialize \<notin> set (trace (snd (main addinsFailEnv))) \<and>
   fst (main addinsFailEnv) = Exited EXIT_FAILURE"
proof -
  have reached: "fallsThrough beforeHandlers addinsFailEnv"
    by (simp add: fallsThrough_def beforeHandlers_def startup_def securityModules_def block_defs
          addinsFailEnv_def okEnv_def startProcess_def)
  have fields: "\<not> serverOffline addinsFailEnv" "\<not> authHandlerIsRegistered addinsFailEnv"
    by (simp_all add: addinsFailEnv_def okEnv_def)
  have "PamAuthInitialize \<notin> set (trace (snd (main addinsFailEnv)))"
    by (simp add: main_addinsFailEnv PamAuthInitialize_notin_addHandlers)
  then show ?thesis
    using reached fields by (simp add: main_addinsFailEnv)
qed

text \<open>
  C2. When the crypto initialisation fails, which it can only report by throwing, no run
  calls anything of a later block: no handler is registered, and nothing later than the
  crypto initialisation is in the trace. When the blocks before it went through, the
  exception is logged right after the call and \<open>main\<close> returns \<open>EXIT_FAILURE\<close>. The same
  holds one step further on for the modules initialised next: in any run in which the
  secure-cookie module, the session proxy or the http server's \<open>init\<close> fails, no handler
  is registered and nothing later than the http server's initialisation is called, and when
  the blocks before them went through \<open>main\<close> returns \<open>EXIT_FAILURE\<close>.
\<close>

theorem crypto_or_security_module_failure_is_fatal:
  "(cryptoInitialize_throws env \<longrightarrow>
      (\<forall>x \<in> set (trace (snd (main env))). \<not> isRegistration x \<and> stage x \<le> 7) \<and>
      (fallsThrough beforeCrypto env \<longrightarrow>
         fst (main env) = Exited EXIT_FAILURE \<and>
         trace (snd (main env)) =
           trace (snd (runBlocks beforeCrypto env (startProcess env))) @
             [CryptoInitialize, LogUnexpectedException])) \<and>
   (secureCookieInitialize_result env \<noteq> None \<or> sessionProxyInitialize_result env \<noteq> None \<or>
    httpServerInit_result env \<noteq> None \<longrightarrow>
      (\<forall>x \<in> set (trace (snd (main env))). \<not> isRegistration x \<and> stage x \<le> 10) \<and>
      (fallsThrough startup env \<longrightarrow> fst (main env) = Exited EXIT_FAILURE))"
proof (intro conjI impI)
  assume throws: "cryptoInitialize_throws env"
  obtain r0 s0 where bc: "runBlocks beforeCrypto env (startProcess env) = (r0, s0)"
    by (cases "runBlocks beforeCrypto env (startProcess env)")
  obtain e s1 where st: "runBlocks startup env (startProcess env) = (Some e, s1)"
    and thrown: "r0 = None \<longrightarrow> e = Exited EXIT_FAILURE \<and>
      s1 = s0\<lparr>trace := trace s0 @ [CryptoInitialize, LogUnexpectedException]\<rparr>"
  proof (cases r0)
    case None
    then have "runBlocks startup env (startProcess env) =
        (Some (Exited EXIT_FAILURE),
         s0\<lparr>trace := trace s0 @ [CryptoInitialize, LogUnexpectedException]\<rparr>)"
      using bc throws
      by (simp add: startup_split runBlocks_append initializeCrypto_def
            catchUnexpectedException_def emit_def)
    then show ?thesis using that by blast
  next
    case (Some a)
    then have "runBlocks startup env (startProcess env) = (Some a, s0)"
      using bc by (simp add: startup_split runBlocks_append)
    then show ?thesis using that Some by blast
  qed
  have m: "main env = (e, s1)"
    using main_exits_in [OF split_at_startup st] .
  have early: "stage x = 0 \<or> (1 \<le> stage x \<and> stage x \<le> 7)" if "x \<in> set (trace s1)" for x
    using staged_from_start [OF startup_runBlocks_staged, of x env] that st by simp
  show "\<forall>x \<in> set (trace (snd (main env))). \<not> isRegistration x \<and> stage x \<le> 7"
    using early isRegistration_stage m by fastforce
  show "fst (main env) = Exited EXIT_FAILURE" if "fallsThrough beforeCrypto env"
    using that bc thrown m by (simp add: fallsThrough_def)
  show "trace (snd (main env)) =
           trace (snd (runBlocks beforeCrypto env (startProcess env))) @
             [CryptoInitialize, LogUnexpectedException]" if "fallsThrough beforeCrypto env"
    using that bc thrown m by (simp add: fallsThrough_def)
next
  assume fails: "secureCookieInitialize_result env \<noteq> None \<or>
    sessionProxyInitialize_result env \<noteq> None \<or> httpServerInit_result env \<noteq> None"
  obtain r0 s0 where st: "runBlocks startup env (startProcess env) = (r0, s0)"
    by (cases "runBlocks startup env (startProcess env)")
  obtain e s1 where bh: "runBlocks beforeHandlers env (startProcess env) = (Some e, s1)"
    and code: "r0 = None \<longrightarrow> e = Exited EXIT_FAILURE"
  proof (cases r0)
    case None
    obtain s1 where "runBlocks securityModules env s0 = (Some (Exited EXIT_FAILURE), s1)"
      using securityModules_failure [OF fails, of s0] by (metis prod.collapse)
    then have "runBlocks beforeHandlers env (startProcess env) = (Some (Exited EXIT_FAILURE), s1)"
      using st None by (simp add: beforeHandlers_def runBlocks_append)
    then show ?thesis using that by blast
  next
    case (Some a)
    then have "runBlocks beforeHandlers env (startProcess env) = (Some a, s0)"
      using st by (simp add: beforeHandlers_def runBlocks_append)
    then show ?thesis using that Some by blast
  qed
  have m: "main env = (e, s1)"
    using main_exits_in [OF split_at_handlers bh] .
  have early: "stage x = 0 \<or> (1 \<le> stage x \<and> stage x \<le> 10)" if "x \<in> set (trace s1)" for x
    using staged_from_start [OF beforeHandlers_staged, of x env] that bh by simp
  show "\<forall>x \<in> set (trace (snd (main env))). \<not> isRegistration x \<and> stage x \<le> 10"
    using early isRegistration_stage m by fastforce
  show "fst (main env) = Exited EXIT_FAILURE" if "fallsThrough startup env"
    using that st code m by (simp add: fallsThrough_def)
qed

theorem crypto_or_security_module_failure_is_fatal_witness:
  "cryptoInitialize_throws cryptoThrowsEnv \<and>
   fallsThrough beforeCrypto cryptoThrowsEnv \<and>
   main cryptoThrowsEnv =
     (Exited EXIT_FAILURE,
      (startProcess cryptoThrowsEnv)
        \<lparr>trace := [InitializeSystemLog, IgnoreSigPipe, OptionsRead, REnvironmentInitialize,
                   SetFilesLimit 4096, MakeCurrentPath ''/'', CryptoInitialize,
                   LogUnexpectedException]\<rparr>) \<and>
   AddHandler ''/rpc'' (SecureAsyncJsonRpcHandler ProxyRpcRequest)
     \<notin> set (trace (snd (main cryptoThrowsEnv))) \<and>
   fst (main cookieFailsEnv) = Exited EXIT_FAILURE \<and>
   AddHandler ''/rpc'' (SecureAsyncJsonRpcHandler ProxyRpcRequest)
     \<notin> set (trace (snd (main cookieFailsEnv)))"
proof -
  have throws: "cryptoInitialize_throws cryptoThrowsEnv"
    by (simp add: cryptoThrowsEnv_def)
  have reached: "fallsThrough beforeCrypto cryptoThrowsEnv"
    by (simp add: fallsThrough_def beforeCrypto_def block_defs cryptoThrowsEnv_def okEnv_def
          startProcess_def)
  have run: "main cryptoThrowsEnv =
     (Exited EXIT_FAILURE,
      (startProcess cryptoThrowsEnv)
        \<lparr>trace := [InitializeSystemLog, IgnoreSigPipe, OptionsRead, REnvironmentInitialize,
                   SetFilesLimit 4096, MakeCurrentPath ''/'', CryptoInitialize,
                   LogUnexpectedException]\<rparr>)"
    by (simp add: main_def bootstrap_def startup_def block_defs cryptoThrowsEnv_def okEnv_def
          startProcess_def)
  note fatal = crypto_or_security_module_failure_is_fatal [of cryptoThrowsEnv]
  have "\<forall>x \<in> set (trace (snd (main cryptoThrowsEnv))). \<not> isRegistration x \<and> stage x \<le> 7"
    using fatal throws by blast
  then have none: "AddHandler ''/rpc'' (SecureAsyncJsonRpcHandler ProxyRpcRequest)
     \<notin> set (trace (snd (main cryptoThrowsEnv)))"
    by fastforce
  have fails: "secureCookieInitialize_result cookieFailsEnv \<noteq> None"
    by (simp add: cookieFailsEnv_def)
  have reached': "fallsThrough startup cookieFailsEnv"
    by (simp add: fallsThrough_def startup_def block_defs cookieFailsEnv_def okEnv_def
          startProcess_def)
  note fatal' = crypto_or_security_module_failure_is_fatal [of cookieFailsEnv]
  have code': "fst (main cookieFailsEnv) = Exited EXIT_FAILURE"
    using fatal' fails reached' by blast
  have "\<forall>x \<in> set (trace (snd (main cookieFailsEnv))). \<not> isRegistration x \<and> stage x \<le> 10"
    using fatal' fails by blast
  then have none': "AddHandler ''/rpc'' (SecureAsyncJsonRpcHandler ProxyRpcRequest)
     \<notin> set (trace (snd (main cookieFailsEnv)))"
    by fastforce
  show ?thesis
    using throws reached run none code' none' by blast
qed

text \<open>
  C1. When the privilege-drop block is reached with a run-as user configured, \<open>main\<close> calls
  the privilege drop for that user. If the call fails, \<open>main\<close> logs the error and returns
  \<open>EXIT_FAILURE\<close>, and nothing of the later blocks (verification session, http server,
  signal loop) has been called. If it succeeds, then at the end of the run, however long the
  signal loop has been running, the real, the effective and the saved user id are the run-as
  user's; for an unprivileged run-as user \<open>seteuid 0\<close> is refused, and no \<open>seteuid\<close> that
  is accepted changes the user ids.
\<close>

theorem privilege_drop_is_permanent_and_its_failure_fatal:
  "fallsThrough beforePrivilegeDrop env \<and> serverUser env \<noteq> [] \<longrightarrow>
     TemporarilyDropPriv (serverUser env) \<in> set (trace (snd (main env))) \<and>
     (\<forall>e. temporarilyDropPriv_result env = Some e \<longrightarrow>
        fst (main env) = Exited EXIT_FAILURE \<and>
        LogError e \<in> set (trace (snd (main env))) \<and>
        (\<forall>x \<in> set (trace (snd (main env))). stage x < 14)) \<and>
     (temporarilyDropPriv_result env = None \<longrightarrow>
        creds (snd (main env)) =
          \<lparr>realUid = userIdOf env (serverUser env),
           effectiveUid = userIdOf env (serverUser env),
           savedUid = userIdOf env (serverUser env)\<rparr> \<and>
        (userIdOf env (serverUser env) \<noteq> 0 \<longrightarrow>
           seteuid 0 (creds (snd (main env))) = None \<and>
           (\<forall>uid c. seteuid uid (creds (snd (main env))) = Some c \<longrightarrow>
              c = creds (snd (main env)))))"
proof (intro impI)
  assume a: "fallsThrough beforePrivilegeDrop env \<and> serverUser env \<noteq> []"
  define s2 where "s2 = snd (runBlocks beforePrivilegeDrop env (startProcess env))"
  have r2: "runBlocks beforePrivilegeDrop env (startProcess env) = (None, s2)"
    using a fallsThrough_state s2_def by simp
  have final: "snd (main env) = snd (runBlocks (dropPrivilege # running) env s2)"
    using main_after_parts(1) [OF split_at_privilegeDrop r2] .
  have early: "stage x = 0 \<or> (1 \<le> stage x \<and> stage x \<le> 12)" if "x \<in> set (trace s2)" for x
    using staged_from_start [OF beforePrivilegeDrop_staged, of x env] that s2_def by simp
  have called: "TemporarilyDropPriv (serverUser env) \<in> set (trace (snd (main env)))"
    unfolding final by (rule from_privilegeDrop_calls) (use a in simp)
  have failure: "fst (main env) = Exited EXIT_FAILURE \<and>
        LogError e \<in> set (trace (snd (main env))) \<and>
        (\<forall>x \<in> set (trace (snd (main env))). stage x < 14)"
    if f: "temporarilyDropPriv_result env = Some e" for e
  proof -
    have dp: "runBlocks (dropPrivilege # running) env s2 =
      (Some (Exited EXIT_FAILURE),
       s2\<lparr>trace := trace s2 @ [TemporarilyDropPriv (serverUser env), LogError e]\<rparr>)"
      using a f by (simp add: dropPrivilege_cases)
    have t: "trace (snd (main env)) = trace s2 @ [TemporarilyDropPriv (serverUser env), LogError e]"
      using final dp by simp
    have "fst (main env) = Exited EXIT_FAILURE"
      using main_after_parts(2) [OF split_at_privilegeDrop r2] dp by simp
    moreover have "\<forall>x \<in> set (trace (snd (main env))). stage x < 14"
      unfolding t using early by fastforce
    ultimately show ?thesis
      using t by simp
  qed
  have success: "creds (snd (main env)) =
          \<lparr>realUid = userIdOf env (serverUser env),
           effectiveUid = userIdOf env (serverUser env),
           savedUid = userIdOf env (serverUser env)\<rparr>"
    if ok: "temporarilyDropPriv_result env = None"
  proof -
    define s3 where "s3 = s2\<lparr>trace := trace s2 @ [TemporarilyDropPriv (serverUser env)],
        creds := \<lparr>realUid = userIdOf env (serverUser env),
                  effectiveUid = userIdOf env (serverUser env),
                  savedUid = userIdOf env (serverUser env)\<rparr>\<rparr>"
    have "runBlocks (dropPrivilege # running) env s2 = runBlocks running env s3"
      using a ok by (simp add: dropPrivilege_cases s3_def)
    then have "creds (snd (main env)) = creds s3"
      using final running_keeps_creds [of env s3] by simp
    then show ?thesis
      by (simp add: s3_def)
  qed
  show "TemporarilyDropPriv (serverUser env) \<in> set (trace (snd (main env))) \<and>
     (\<forall>e. temporarilyDropPriv_result env = Some e \<longrightarrow>
        fst (main env) = Exited EXIT_FAILURE \<and>
        LogError e \<in> set (trace (snd (main env))) \<and>
        (\<forall>x \<in> set (trace (snd (main env))). stage x < 14)) \<and>
     (temporarilyDropPriv_result env = None \<longrightarrow>
        creds (snd (main env)) =
          \<lparr>realUid = userIdOf env (serverUser env),
           effectiveUid = userIdOf env (serverUser env),
           savedUid = userIdOf env (serverUser env)\<rparr> \<and>
        (userIdOf env (serverUser env) \<noteq> 0 \<longrightarrow>
           seteuid 0 (creds (snd (main env))) = None \<and>
           (\<forall>uid c. seteuid uid (creds (snd (main env))) = Some c \<longrightarrow>
              c = creds (snd (main env)))))"
    using called failure success by (auto simp: seteuid_def split: if_splits)
qed

theorem privilege_drop_is_permanent_and_its_failure_fatal_witness:
  "fallsThrough beforePrivilegeDrop okEnv \<and>
   creds (snd (main okEnv)) = \<lparr>realUid = 998, effectiveUid = 998, savedUid = 998\<rparr> \<and>
   seteuid 0 (creds (snd (main okEnv))) = None \<and>
   fallsThrough beforePrivilegeDrop dropFailsEnv \<and>
   fst (main dropFailsEnv) = Exited EXIT_FAILURE \<and>
   HttpServerRun 4 \<notin> set (trace (snd (main dropFailsEnv)))"
proof -
  have reached: "fallsThrough beforePrivilegeDrop okEnv"
    by (simp add: fallsThrough_def beforePrivilegeDrop_def startup_def securityModules_def
          block_defs okEnv_def startProcess_def)
  have reached': "fallsThrough beforePrivilegeDrop dropFailsEnv"
    by (simp add: fallsThrough_def beforePrivilegeDrop_def startup_def securityModules_def
          block_defs dropFailsEnv_def okEnv_def startProcess_def)
  have fields: "serverUser okEnv = ''rstudio-server''" "temporarilyDropPriv_result okEnv = None"
    "userIdOf okEnv ''rstudio-server'' = 998"
    by (simp_all add: okEnv_def)
  have fields': "serverUser dropFailsEnv = ''rstudio-server''"
    "temporarilyDropPriv_result dropFailsEnv = Some (SystemError 1)"
    by (simp_all add: dropFailsEnv_def okEnv_def)
  have dropped: "creds (snd (main okEnv)) = \<lparr>realUid = 998, effectiveUid = 998, savedUid = 998\<rparr> \<and>
      seteuid 0 (creds (snd (main okEnv))) = None"
    using privilege_drop_is_permanent_and_its_failure_fatal [of okEnv] reached fields by (simp add: seteuid_def)
  have fatal: "fst (main dropFailsEnv) = Exited EXIT_FAILURE \<and>
      (\<forall>x \<in> set (trace (snd (main dropFailsEnv))). stage x < 14)"
    using privilege_drop_is_permanent_and_its_failure_fatal [of dropFailsEnv] reached' fields' by simp
  then have norun: "HttpServerRun 4 \<notin> set (trace (snd (main dropFailsEnv)))"
    by fastforce
  show ?thesis
    using reached dropped reached' fatal norun by blast
qed

end
